theory Spec2Isabelle
  imports Main
begin

section \<open>JavaScript values\<close>

text \<open>
  The values that cross the code being verified: predicate results, thrown values and the
  arguments of \<^verbatim>\<open>terminate\<close>. Numbers are integer valued (no \<^verbatim>\<open>NaN\<close>, no fractions);
  \<open>Obj\<close> is any non-error object, known by its identity; \<open>Err\<close> is an object that passes
  \<^verbatim>\<open>instanceof Error\<close>, with its class and its \<^verbatim>\<open>message\<close>.
\<close>

datatype errclass = Error | TimeoutError | TypeError

datatype jsval =
    Undefined
  | Null
  | Bool bool
  | Num int
  | Str string
  | Obj nat
  | Err errclass string

text \<open>The truthiness test of \<^verbatim>\<open>if (v)\<close>.\<close>

fun truthy :: "jsval \<Rightarrow> bool" where
  "truthy Undefined = False"
| "truthy Null = False"
| "truthy (Bool b) = b"
| "truthy (Num n) = (n \<noteq> 0)"
| "truthy (Str s) = (s \<noteq> [])"
| "truthy (Obj _) = True"
| "truthy (Err _ _) = True"

text \<open>\<^verbatim>\<open>e instanceof Error\<close>, and the \<^verbatim>\<open>message\<close> of such an object.\<close>

fun instanceof_Error :: "jsval \<Rightarrow> bool" where
  "instanceof_Error (Err _ _) = True"
| "instanceof_Error _ = False"

fun message :: "jsval \<Rightarrow> string" where
  "message (Err _ m) = m"
| "message _ = []"

text \<open>\<^verbatim>\<open>String.prototype.includes\<close>: the argument occurs as a contiguous run.\<close>

fun startsWith :: "string \<Rightarrow> string \<Rightarrow> bool" where
  "startsWith s [] = True"
| "startsWith [] (c # cs) = False"
| "startsWith (x # xs) (c # cs) = (x = c \<and> startsWith xs cs)"

fun String_includes :: "string \<Rightarrow> string \<Rightarrow> bool" where
  "String_includes [] sub = (sub = [])"
| "String_includes (x # xs) sub = (startsWith (x # xs) sub \<or> String_includes xs sub)"

text \<open>
  The Numbers the model covers as timeouts: the safe integers (\<^verbatim>\<open>Number.isSafeInteger\<close>), the
  whole numbers of magnitude below \<open>2\<^sup>5\<^sup>3\<close>. Each is a Number in its own right, and its text
  inside a template literal, \<^verbatim>\<open>`${n}`\<close>, is its decimal digits in full, with a leading minus
  sign below zero. Fractions, \<^verbatim>\<open>NaN\<close>, the infinities and larger magnitudes (whose text is
  rounded to the shortest digits that read back, and in exponent notation from \<open>10\<^sup>2\<^sup>1\<close> on)
  are not values of this type.
\<close>

typedef safe_integer = "{n :: int. - (2 ^ 53) < n \<and> n < 2 ^ 53}"
  morphisms int_of safe_integer
  by (rule exI [of _ 0]) simp

definition digit :: "nat \<Rightarrow> char" where
  "digit d = ''0123456789'' ! d"

function Number_toString_nat :: "nat \<Rightarrow> string" where
  "Number_toString_nat n =
     (if n < 10 then [digit n] else Number_toString_nat (n div 10) @ [digit (n mod 10)])"
  by pat_completeness auto
termination
  by (relation "measure id") auto

definition Number_toString :: "safe_integer \<Rightarrow> string" where
  "Number_toString n =
     (if int_of n < 0 then CHR ''-'' # Number_toString_nat (nat (- int_of n))
      else Number_toString_nat (nat (int_of n)))"

text \<open>
  Reading a text as a decimal numeral, to say which text \<open>Number_toString\<close> gives: the
  digits are read left to right, an optional minus sign first; a text is canonical when
  it has no leading zero and is not minus zero.
\<close>

definition digit_value :: "char \<Rightarrow> nat option" where
  "digit_value c =
     map_of [(CHR ''0'', 0), (CHR ''1'', 1), (CHR ''2'', 2), (CHR ''3'', 3), (CHR ''4'', 4),
             (CHR ''5'', 5), (CHR ''6'', 6), (CHR ''7'', 7), (CHR ''8'', 8), (CHR ''9'', 9)] c"

fun read_digits :: "nat \<Rightarrow> string \<Rightarrow> nat option" where
  "read_digits acc [] = Some acc"
| "read_digits acc (c # cs) =
     (case digit_value c of None \<Rightarrow> None | Some d \<Rightarrow> read_digits (10 * acc + d) cs)"

definition read_decimal :: "string \<Rightarrow> int option" where
  "read_decimal s =
     (case s of
        [] \<Rightarrow> None
      | c # cs \<Rightarrow>
          if c = CHR ''-''
          then (if cs = [] then None else map_option (\<lambda>n. - int n) (read_digits 0 cs))
          else map_option int (read_digits 0 s))"

definition canonical :: "string \<Rightarrow> bool" where
  "canonical s =
     (case s of
        [] \<Rightarrow> False
      | c # cs \<Rightarrow>
          if c = CHR ''-'' then cs \<noteq> [] \<and> hd cs \<noteq> CHR ''0''
          else c = CHR ''0'' \<longrightarrow> cs = [])"

section \<open>Deferred results\<close>

text \<open>
  Modelled from the spec: \<^verbatim>\<open>util/DeferredPromise.js\<close> (\<^verbatim>\<open>createDeferredPromise\<close>) is not among
  the sources. The spec (4.1) gives its contract: states Pending, Fulfilled(value),
  Rejected(error); \<^verbatim>\<open>resolve(value)\<close> and \<^verbatim>\<open>reject(error)\<close> are each a no-op once settled;
  \<^verbatim>\<open>finished()\<close> reports true after either.
\<close>

datatype 'a deferred = Pending | Fulfilled 'a | Rejected jsval

text \<open>
  Modelled from the spec: \<^verbatim>\<open>resolve\<close>, \<^verbatim>\<open>reject\<close> and \<^verbatim>\<open>finished\<close> of the DeferredPromise, as in 4.1:
  the first of \<^verbatim>\<open>resolve\<close> and \<^verbatim>\<open>reject\<close> settles it, and a later one changes nothing.
\<close>

fun resolve :: "'a \<Rightarrow> 'a deferred \<Rightarrow> 'a deferred" where
  "resolve v Pending = Fulfilled v"
| "resolve v d = d"

fun reject :: "jsval \<Rightarrow> 'a deferred \<Rightarrow> 'a deferred" where
  "reject e Pending = Rejected e"
| "reject e d = d"

fun finished :: "'a deferred \<Rightarrow> bool" where
  "finished Pending = False"
| "finished _ = True"

text \<open>
  Modelled from the spec: \<^verbatim>\<open>util/assert.js\<close> is not among the sources. \<^verbatim>\<open>assert(value, message)\<close>
  fails with an error carrying the message when the value is falsy, and returns otherwise.
\<close>

definition assert :: "bool \<Rightarrow> string \<Rightarrow> jsval + unit" where
  "assert v msg = (if v then Inr () else Inl (Err Error msg))"

section \<open>WaitTask: classification of errors\<close>

text \<open>
  \<^verbatim>\<open>WaitTask.getBadError\<close>. The result \<open>Undefined\<close> is the bare \<^verbatim>\<open>return;\<close> of the source;
  the caller, \<^verbatim>\<open>rerun\<close>, terminates the task when the result is truthy.
\<close>

definition getBadError :: "jsval \<Rightarrow> jsval" where
  "getBadError error =
     (if instanceof_Error error
      then if String_includes (message error)
                ''Execution context is not available in detached frame''
           then Err Error ''Waiting failed: Frame detached''
           else if String_includes (message error) ''Execution context was destroyed''
           then Undefined
           else if String_includes (message error) ''Cannot find context with specified id''
           then Undefined
           else error
      else error)"

section \<open>Pollers (injected into the page)\<close>

text \<open>
  What one evaluation of the predicate \<^verbatim>\<open>#fn\<close> comes to: the awaited promise is fulfilled
  with a value, or it is rejected.
\<close>

datatype fn_outcome = Returns jsval | Throws jsval

text \<open>
  An \<^verbatim>\<open>async\<close> method ends normally or by throwing; the poller's state is returned beside
  the completion in both cases.
\<close>

type_synonym completion = "jsval + unit"

text \<open>
  The part the three classes share. \<^verbatim>\<open>start\<close> creates a DeferredPromise and keeps it both
  in the field \<^verbatim>\<open>#promise\<close> and in the local \<^verbatim>\<open>promise\<close> that the watch callbacks capture,
  so the DeferredPromise objects live in a store, \<open>promises\<close>, addressed by creation index.
  \<open>evaluations\<close> counts the calls of \<^verbatim>\<open>#fn\<close>.
\<close>

record Poller =
  promises :: "nat \<Rightarrow> jsval deferred"
  npromises :: nat
  promise :: "nat option"
  evaluations :: nat

definition stop_error :: jsval where
  "stop_error = Err Error ''Polling stopped''"

subsection \<open>MutationPoller\<close>

text \<open>
  \<open>observing\<close> is the host's side of \<^verbatim>\<open>MutationObserver\<close>: the observers that are connected,
  each with the \<^verbatim>\<open>promise\<close> its callback captured; \<^verbatim>\<open>observe\<close> enters one,
  \<^verbatim>\<open>disconnect\<close> removes it.
\<close>

record MutationPoller = Poller +
  mp_root :: nat
  observing :: "nat \<rightharpoonup> nat"
  nobservers :: nat
  observer :: "nat option"

definition MutationPoller_new :: "nat \<Rightarrow> MutationPoller" where
  "MutationPoller_new r =
     \<lparr>promises = (\<lambda>_. Pending), npromises = 0, promise = None, evaluations = 0,
      mp_root = r, observing = Map.empty, nobservers = 0, observer = None\<rparr>"

text \<open>\<^verbatim>\<open>start\<close> up to its \<^verbatim>\<open>await this.#fn()\<close>; the local \<^verbatim>\<open>promise\<close> is returned.\<close>

definition MutationPoller_start_call :: "MutationPoller \<Rightarrow> nat \<times> MutationPoller" where
  "MutationPoller_start_call p =
     (npromises p,
      p\<lparr>promises := (promises p)(npromises p := Pending), npromises := Suc (npromises p),
        promise := Some (npromises p), evaluations := Suc (evaluations p)\<rparr>)"

definition MutationPoller_stop :: "MutationPoller \<Rightarrow> completion \<times> MutationPoller" where
  "MutationPoller_stop p =
     (case assert (promise p \<noteq> None) ''Polling never started.'' of
        Inl e \<Rightarrow> (Inl e, p)
      | Inr _ \<Rightarrow>
          let a = the (promise p);
              p1 = (if \<not> finished (promises p a)
                    then p\<lparr>promises := (promises p)(a := reject stop_error (promises p a))\<rparr>
                    else p);
              p2 = (case observer p1 of
                      Some ob \<Rightarrow> p1\<lparr>observing := (observing p1)(ob := None), observer := None\<rparr>
                    | None \<Rightarrow> p1)
          in (Inr (), p2))"

text \<open>\<^verbatim>\<open>start\<close> from the point where the first evaluation has settled.\<close>

definition MutationPoller_start_resume ::
    "nat \<Rightarrow> fn_outcome \<Rightarrow> MutationPoller \<Rightarrow> completion \<times> MutationPoller" where
  "MutationPoller_start_resume k out p =
     (case out of
        Throws e \<Rightarrow> (Inl e, p)
      | Returns result \<Rightarrow>
          if truthy result
          then (Inr (), p\<lparr>promises := (promises p)(k := resolve result (promises p k))\<rparr>)
          else (Inr (), p\<lparr>observing := (observing p)(nobservers p \<mapsto> k),
                          nobservers := Suc (nobservers p),
                          observer := Some (nobservers p)\<rparr>))"

definition MutationPoller_start :: "fn_outcome \<Rightarrow> MutationPoller \<Rightarrow> completion \<times> MutationPoller" where
  "MutationPoller_start out p =
     (let (k, p') = MutationPoller_start_call p in MutationPoller_start_resume k out p')"

text \<open>
  The observer's callback, run by the host for a connected observer \<open>ob\<close> on a batch of
  mutation records: up to its \<^verbatim>\<open>await this.#fn()\<close>, and from there.
\<close>

definition MutationPoller_callback_call :: "nat \<Rightarrow> MutationPoller \<Rightarrow> nat option \<times> MutationPoller" where
  "MutationPoller_callback_call ob p =
     (case observing p ob of
        None \<Rightarrow> (None, p)
      | Some k \<Rightarrow> (Some k, p\<lparr>evaluations := Suc (evaluations p)\<rparr>))"

definition MutationPoller_callback_resume ::
    "nat \<Rightarrow> fn_outcome \<Rightarrow> MutationPoller \<Rightarrow> completion \<times> MutationPoller" where
  "MutationPoller_callback_resume k out p =
     (case out of
        Throws e \<Rightarrow> (Inl e, p)
      | Returns result \<Rightarrow>
          if \<not> truthy result then (Inr (), p)
          else MutationPoller_stop (p\<lparr>promises := (promises p)(k := resolve result (promises p k))\<rparr>))"

definition MutationPoller_result :: "MutationPoller \<Rightarrow> jsval + nat" where
  "MutationPoller_result p =
     (case assert (promise p \<noteq> None) ''Polling never started.'' of
        Inl e \<Rightarrow> Inl e
      | Inr _ \<Rightarrow> Inr (the (promise p)))"

subsection \<open>RAFPoller\<close>

text \<open>
  \<open>frames\<close> is the host's list of callbacks handed to \<^verbatim>\<open>window.requestAnimationFrame\<close>
  and not yet run: each is a \<^verbatim>\<open>poll\<close> closure, known by the \<^verbatim>\<open>promise\<close> it captured.
\<close>

record RAFPoller = Poller +
  frames :: "nat list"

definition RAFPoller_new :: RAFPoller where
  "RAFPoller_new =
     \<lparr>promises = (\<lambda>_. Pending), npromises = 0, promise = None, evaluations = 0, frames = []\<rparr>"

definition RAFPoller_start_call :: "RAFPoller \<Rightarrow> nat \<times> RAFPoller" where
  "RAFPoller_start_call p =
     (npromises p,
      p\<lparr>promises := (promises p)(npromises p := Pending), npromises := Suc (npromises p),
        promise := Some (npromises p), evaluations := Suc (evaluations p)\<rparr>)"

definition RAFPoller_stop :: "RAFPoller \<Rightarrow> completion \<times> RAFPoller" where
  "RAFPoller_stop p =
     (case assert (promise p \<noteq> None) ''Polling never started.'' of
        Inl e \<Rightarrow> (Inl e, p)
      | Inr _ \<Rightarrow>
          let a = the (promise p)
          in (Inr (), if \<not> finished (promises p a)
                      then p\<lparr>promises := (promises p)(a := reject stop_error (promises p a))\<rparr>
                      else p))"

definition RAFPoller_start_resume :: "nat \<Rightarrow> fn_outcome \<Rightarrow> RAFPoller \<Rightarrow> completion \<times> RAFPoller" where
  "RAFPoller_start_resume k out p =
     (case out of
        Throws e \<Rightarrow> (Inl e, p)
      | Returns result \<Rightarrow>
          if truthy result
          then (Inr (), p\<lparr>promises := (promises p)(k := resolve result (promises p k))\<rparr>)
          else (Inr (), p\<lparr>frames := frames p @ [k]\<rparr>))"

definition RAFPoller_start :: "fn_outcome \<Rightarrow> RAFPoller \<Rightarrow> completion \<times> RAFPoller" where
  "RAFPoller_start out p =
     (let (k, p') = RAFPoller_start_call p in RAFPoller_start_resume k out p')"

text \<open>
  \<^verbatim>\<open>poll\<close>, run by the host for the first scheduled callback (which leaves the list):
  up to its \<^verbatim>\<open>await this.#fn()\<close>, when it gets that far, and from there.
\<close>

definition RAFPoller_poll_call :: "RAFPoller \<Rightarrow> nat option \<times> RAFPoller" where
  "RAFPoller_poll_call p =
     (case frames p of
        [] \<Rightarrow> (None, p)
      | k # ks \<Rightarrow>
          if finished (promises p k) then (None, p\<lparr>frames := ks\<rparr>)
          else (Some k, p\<lparr>frames := ks, evaluations := Suc (evaluations p)\<rparr>))"

definition RAFPoller_poll_resume :: "nat \<Rightarrow> fn_outcome \<Rightarrow> RAFPoller \<Rightarrow> completion \<times> RAFPoller" where
  "RAFPoller_poll_resume k out p =
     (case out of
        Throws e \<Rightarrow> (Inl e, p)
      | Returns result \<Rightarrow>
          if \<not> truthy result then (Inr (), p\<lparr>frames := frames p @ [k]\<rparr>)
          else RAFPoller_stop (p\<lparr>promises := (promises p)(k := resolve result (promises p k))\<rparr>))"

definition RAFPoller_result :: "RAFPoller \<Rightarrow> jsval + nat" where
  "RAFPoller_result p =
     (case assert (promise p \<noteq> None) ''Polling never started.'' of
        Inl e \<Rightarrow> Inl e
      | Inr _ \<Rightarrow> Inr (the (promise p)))"

subsection \<open>IntervalPoller\<close>

text \<open>
  \<open>ticking\<close> is the host's side of \<^verbatim>\<open>setInterval\<close>: the repeating timers that are set, each
  with the \<^verbatim>\<open>promise\<close> its callback captured; \<^verbatim>\<open>clearInterval\<close> removes one.
\<close>

record IntervalPoller = Poller +
  ms :: int
  ticking :: "nat \<rightharpoonup> nat"
  nintervals :: nat
  interval :: "nat option"

definition IntervalPoller_new :: "int \<Rightarrow> IntervalPoller" where
  "IntervalPoller_new m =
     \<lparr>promises = (\<lambda>_. Pending), npromises = 0, promise = None, evaluations = 0,
      ms = m, ticking = Map.empty, nintervals = 0, interval = None\<rparr>"

definition IntervalPoller_start_call :: "IntervalPoller \<Rightarrow> nat \<times> IntervalPoller" where
  "IntervalPoller_start_call p =
     (npromises p,
      p\<lparr>promises := (promises p)(npromises p := Pending), npromises := Suc (npromises p),
        promise := Some (npromises p), evaluations := Suc (evaluations p)\<rparr>)"

definition IntervalPoller_stop :: "IntervalPoller \<Rightarrow> completion \<times> IntervalPoller" where
  "IntervalPoller_stop p =
     (case assert (promise p \<noteq> None) ''Polling never started.'' of
        Inl e \<Rightarrow> (Inl e, p)
      | Inr _ \<Rightarrow>
          let a = the (promise p);
              p1 = (if \<not> finished (promises p a)
                    then p\<lparr>promises := (promises p)(a := reject stop_error (promises p a))\<rparr>
                    else p);
              p2 = (case interval p1 of
                      Some tm \<Rightarrow> p1\<lparr>ticking := (ticking p1)(tm := None), interval := None\<rparr>
                    | None \<Rightarrow> p1)
          in (Inr (), p2))"

definition IntervalPoller_start_resume ::
    "nat \<Rightarrow> fn_outcome \<Rightarrow> IntervalPoller \<Rightarrow> completion \<times> IntervalPoller" where
  "IntervalPoller_start_resume k out p =
     (case out of
        Throws e \<Rightarrow> (Inl e, p)
      | Returns result \<Rightarrow>
          if truthy result
          then (Inr (), p\<lparr>promises := (promises p)(k := resolve result (promises p k))\<rparr>)
          else (Inr (), p\<lparr>ticking := (ticking p)(nintervals p \<mapsto> k),
                          nintervals := Suc (nintervals p),
                          interval := Some (nintervals p)\<rparr>))"

definition IntervalPoller_start :: "fn_outcome \<Rightarrow> IntervalPoller \<Rightarrow> completion \<times> IntervalPoller" where
  "IntervalPoller_start out p =
     (let (k, p') = IntervalPoller_start_call p in IntervalPoller_start_resume k out p')"

definition IntervalPoller_tick_call :: "nat \<Rightarrow> IntervalPoller \<Rightarrow> nat option \<times> IntervalPoller" where
  "IntervalPoller_tick_call tm p =
     (case ticking p tm of
        None \<Rightarrow> (None, p)
      | Some k \<Rightarrow> (Some k, p\<lparr>evaluations := Suc (evaluations p)\<rparr>))"

definition IntervalPoller_tick_resume ::
    "nat \<Rightarrow> fn_outcome \<Rightarrow> IntervalPoller \<Rightarrow> completion \<times> IntervalPoller" where
  "IntervalPoller_tick_resume k out p =
     (case out of
        Throws e \<Rightarrow> (Inl e, p)
      | Returns result \<Rightarrow>
          if \<not> truthy result then (Inr (), p)
          else IntervalPoller_stop (p\<lparr>promises := (promises p)(k := resolve result (promises p k))\<rparr>))"

definition IntervalPoller_result :: "IntervalPoller \<Rightarrow> jsval + nat" where
  "IntervalPoller_result p =
     (case assert (promise p \<noteq> None) ''Polling never started.'' of
        Inl e \<Rightarrow> Inl e
      | Inr _ \<Rightarrow> Inr (the (promise p)))"

section \<open>WaitTask and TaskManager\<close>

datatype polling = Raf | Mutation | Interval int

text \<open>The argument \<^verbatim>\<open>fn\<close>: a string, or a function, known by the text \<^verbatim>\<open>toString()\<close> gives.\<close>

datatype fn_source = FnString string | FnFunction string

text \<open>
  \<^verbatim>\<open>WaitTaskOptions\<close>. A bound function is known by its \<^verbatim>\<open>name\<close> and its identity; \<^verbatim>\<open>timeout\<close> is
  a safe integer, for which the test \<^verbatim>\<open>if (options.timeout)\<close> is \<open>int_of timeout \<noteq> 0\<close>.
\<close>

record WaitTaskOptions =
  bindings :: "(string \<times> nat) list option"
  polling :: polling
  root :: "nat option"
  timeout :: safe_integer

text \<open>
  The task's DeferredPromise is held by the task alone (the field \<^verbatim>\<open>#result\<close>), so it is kept
  in the task by value, with the identity \<open>ident\<close> that \<^verbatim>\<open>createDeferredPromise\<close> gave it: the
  number of DeferredPromises the controller had created before. It is fulfilled with the
  handle that \<^verbatim>\<open>evaluateHandle\<close> returns for the poller's result.

  \<^verbatim>\<open>#timeout\<close> holds what \<^verbatim>\<open>setTimeout\<close> returned (a timer object, truthy whichever it is), and
  \<^verbatim>\<open>#poller\<close> the handle of the poller in the page. The \<^verbatim>\<open>IsolatedWorld\<close> and the handles are
  not among the sources: their remote calls are taken as they settle, either way.
\<close>

record 'a DeferredPromise =
  ident :: nat
  settlement :: "'a deferred"

definition createDeferredPromise :: "nat \<Rightarrow> 'a DeferredPromise" where
  "createDeferredPromise n = \<lparr>ident = n, settlement = Pending\<rparr>"

record WaitTask =
  wt_bindings :: "(string \<times> nat) list"
  wt_polling :: polling
  wt_root :: "nat option"
  wt_fn :: string
  wt_args :: "jsval list"
  wt_timeout :: "nat option"
  wt_result :: "nat DeferredPromise"
  wt_poller :: "nat option"

text \<open>
  Where an \<^verbatim>\<open>async\<close> call of \<^verbatim>\<open>rerun\<close> or \<^verbatim>\<open>terminate\<close> is suspended: the remote call it awaits.
  \<open>RCreate\<close> is the \<^verbatim>\<open>evaluateHandle\<close> that builds the poller; \<open>RStart\<close> and \<open>RResult\<close> are
  the calls of \<^verbatim>\<open>start\<close> and \<^verbatim>\<open>result\<close> on the poller handle; \<open>TStop\<close> and \<open>TDispose\<close> are
  the two calls of \<^verbatim>\<open>terminate\<close>, with the handle they were made on.
\<close>

datatype pc =
    RContext
  | RBindings
  | RUtil
  | RCreate polling
  | RStart nat
  | RResult nat
  | TStop nat
  | TDispose nat

text \<open>How an awaited remote call settles: with a value (a handle), or with a thrown value.\<close>

datatype outcome = Ok nat | Fail jsval

text \<open>
  The controller's state: the WaitTask objects by identity, the TaskManager's set in
  insertion order, \<^verbatim>\<open>_boundFunctions\<close>, the host's pending \<^verbatim>\<open>setTimeout\<close> callbacks (each a
  closure over the task and \<^verbatim>\<open>options.timeout\<close>), and the suspended \<^verbatim>\<open>async\<close> calls.
\<close>

record world =
  objs :: "nat \<Rightarrow> WaitTask"
  nobjs :: nat
  ndeferreds :: nat
  taskManager :: "nat list"
  boundFunctions :: "string \<rightharpoonup> nat"
  timers :: "nat \<rightharpoonup> (nat \<times> safe_integer)"
  ntimers :: nat
  suspended :: "(nat \<times> pc) list"

text \<open>
  Before any task is constructed: no task exists (\<open>objs\<close> is read only at the identities
  below \<open>nobjs\<close>, which the constructor has filled), nothing is registered, pending or
  suspended.
\<close>

definition blank :: WaitTask where
  "blank =
     \<lparr>wt_bindings = [], wt_polling = Raf, wt_root = None, wt_fn = [], wt_args = [],
      wt_timeout = None, wt_result = createDeferredPromise 0, wt_poller = None\<rparr>"

definition init :: world where
  "init =
     \<lparr>objs = (\<lambda>_. blank), nobjs = 0, ndeferreds = 0, taskManager = [],
      boundFunctions = Map.empty, timers = Map.empty, ntimers = 0, suspended = []\<rparr>"

subsection \<open>TaskManager\<close>

text \<open>\<^verbatim>\<open>TaskManager.add\<close> and \<^verbatim>\<open>TaskManager.delete\<close>, on the set \<^verbatim>\<open>#tasks\<close>.\<close>

definition add :: "nat \<Rightarrow> world \<Rightarrow> world" where
  "add t w =
     w\<lparr>taskManager := (if t \<in> set (taskManager w) then taskManager w else taskManager w @ [t])\<rparr>"

definition delete :: "nat \<Rightarrow> world \<Rightarrow> world" where
  "delete t w = w\<lparr>taskManager := removeAll t (taskManager w)\<rparr>"

subsection \<open>WaitTask\<close>

text \<open>
  The host's \<^verbatim>\<open>clearTimeout\<close>, and the assignments the methods make: to the settlement of
  \<^verbatim>\<open>#result\<close> (through \<^verbatim>\<open>resolve\<close> or \<^verbatim>\<open>reject\<close>), to \<^verbatim>\<open>#poller\<close>, and to the list of suspended calls when
  a method reaches an \<^verbatim>\<open>await\<close>.
\<close>

definition clearTimeout :: "nat \<Rightarrow> world \<Rightarrow> world" where
  "clearTimeout tm w = w\<lparr>timers := (timers w)(tm := None)\<rparr>"

definition set_result :: "nat \<Rightarrow> (nat deferred \<Rightarrow> nat deferred) \<Rightarrow> world \<Rightarrow> world" where
  "set_result t f w =
     w\<lparr>objs := (objs w)(t := (objs w t)
          \<lparr>wt_result := (wt_result (objs w t))\<lparr>settlement := f (settlement (wt_result (objs w t)))\<rparr>\<rparr>)\<rparr>"

definition set_poller :: "nat \<Rightarrow> nat option \<Rightarrow> world \<Rightarrow> world" where
  "set_poller t h w = w\<lparr>objs := (objs w)(t := (objs w t)\<lparr>wt_poller := h\<rparr>)\<rparr>"

definition suspend :: "nat \<Rightarrow> pc \<Rightarrow> world \<Rightarrow> world" where
  "suspend t c w = w\<lparr>suspended := suspended w @ [(t, c)]\<rparr>"

text \<open>\<^verbatim>\<open>terminate(error)\<close> up to its first \<^verbatim>\<open>await\<close>; \<open>Undefined\<close> is the absent argument.\<close>

definition terminate :: "nat \<Rightarrow> jsval \<Rightarrow> world \<Rightarrow> world" where
  "terminate t error w =
     (let w1 = delete t w;
          w2 = (case wt_timeout (objs w1 t) of
                  Some tm \<Rightarrow> clearTimeout tm w1
                | None \<Rightarrow> w1);
          w3 = (if truthy error \<and> \<not> finished (settlement (wt_result (objs w2 t)))
                then set_result t (reject error) w2
                else w2)
      in case wt_poller (objs w3 t) of
           Some h \<Rightarrow> suspend t (TStop h) w3
         | None \<Rightarrow> w3)"

text \<open>\<^verbatim>\<open>rerun()\<close> up to its first \<^verbatim>\<open>await\<close>.\<close>

definition rerun :: "nat \<Rightarrow> world \<Rightarrow> world" where
  "rerun t w = suspend t (if wt_bindings (objs w t) \<noteq> [] then RContext else RUtil) w"

text \<open>The \<^verbatim>\<open>catch\<close> block of \<^verbatim>\<open>rerun\<close>.\<close>

definition rerun_catch :: "nat \<Rightarrow> jsval \<Rightarrow> world \<Rightarrow> world" where
  "rerun_catch t error w =
     (let badError = getBadError error
      in if truthy badError then terminate t badError w else w)"

text \<open>
  Reading a property of \<^verbatim>\<open>this.#poller\<close> when it is \<^verbatim>\<open>undefined\<close> throws a TypeError (the
  message is the engine's; it holds none of the texts \<^verbatim>\<open>getBadError\<close> looks for).
\<close>

definition undefined_poller :: jsval where
  "undefined_poller = Err TypeError ''Cannot read properties of undefined''"

text \<open>
  A suspended call goes on when the remote call it awaits settles: the rest of \<^verbatim>\<open>rerun\<close>
  or of \<^verbatim>\<open>terminate\<close> from that \<^verbatim>\<open>await\<close> to the next one, or to the end.
\<close>

fun continue :: "nat \<Rightarrow> pc \<Rightarrow> outcome \<Rightarrow> world \<Rightarrow> world" where
  "continue t RContext (Ok _) w = suspend t RBindings w"
| "continue t RBindings (Ok _) w = suspend t RUtil w"
| "continue t RUtil (Ok _) w = suspend t (RCreate (wt_polling (objs w t))) w"
| "continue t (RCreate _) (Ok h) w = suspend t (RStart h) (set_poller t (Some h) w)"
| "continue t (RStart _) (Ok _) w =
     (case wt_poller (objs w t) of
        Some h \<Rightarrow> suspend t (RResult h) w
      | None \<Rightarrow> rerun_catch t undefined_poller w)"
| "continue t (RResult _) (Ok result) w = terminate t Undefined (set_result t (resolve result) w)"
| "continue t (TStop _) (Ok _) w =
     (case wt_poller (objs w t) of
        Some h \<Rightarrow> suspend t (TDispose h) w
      | None \<Rightarrow> w)"
| "continue t (TDispose _) (Ok _) w = set_poller t None w"
| "continue t (TStop _) (Fail _) w = w"
| "continue t (TDispose _) (Fail _) w = w"
| "continue t _ (Fail error) w = rerun_catch t error w"

text \<open>The suspended call \<open>i\<close> leaves the list when the call it awaits settles.\<close>

definition unsuspend :: "nat \<Rightarrow> world \<Rightarrow> world" where
  "unsuspend i w = w\<lparr>suspended := take i (suspended w) @ drop (Suc i) (suspended w)\<rparr>"

definition settle :: "nat \<Rightarrow> outcome \<Rightarrow> world \<Rightarrow> world" where
  "settle i out w =
     (if i < length (suspended w)
      then continue (fst (suspended w ! i)) (snd (suspended w ! i)) out (unsuspend i w)
      else w)"

text \<open>The calls that are suspended inside \<^verbatim>\<open>rerun\<close>, in its \<^verbatim>\<open>try\<close> block.\<close>

fun in_rerun :: "pc \<Rightarrow> bool" where
  "in_rerun (TStop _) = False"
| "in_rerun (TDispose _) = False"
| "in_rerun _ = True"

text \<open>\<^verbatim>\<open>new TimeoutError(`Waiting failed: ${options.timeout}ms exceeded`)\<close>.\<close>

definition timeout_error :: "safe_integer \<Rightarrow> jsval" where
  "timeout_error d = Err TimeoutError (''Waiting failed: '' @ Number_toString d @ ''ms exceeded'')"

text \<open>The host runs a pending \<^verbatim>\<open>setTimeout\<close> callback, once.\<close>

definition timer_fires :: "nat \<Rightarrow> world \<Rightarrow> world" where
  "timer_fires tm w =
     (case timers w tm of
        None \<Rightarrow> w
      | Some (t, d) \<Rightarrow> terminate t (timeout_error d) (w\<lparr>timers := (timers w)(tm := None)\<rparr>))"

text \<open>The constructor; the new task's identity is returned.\<close>

definition WaitTask_new :: "WaitTaskOptions \<Rightarrow> fn_source \<Rightarrow> jsval list \<Rightarrow> world \<Rightarrow> nat \<times> world" where
  "WaitTask_new options fn args w =
     (let t = nobjs w;
          this = \<lparr>wt_bindings = (case bindings options of Some b \<Rightarrow> b | None \<Rightarrow> []),
                  wt_polling = polling options,
                  wt_root = root options,
                  wt_fn = (case fn of
                             FnString s \<Rightarrow> ''() => {return ('' @ s @ '');}''
                           | FnFunction src \<Rightarrow> src),
                  wt_args = args,
                  wt_timeout = None,
                  wt_result = createDeferredPromise (ndeferreds w),
                  wt_poller = None\<rparr>;
          w1 = w\<lparr>objs := (objs w)(t := this), nobjs := Suc t, ndeferreds := Suc (ndeferreds w)\<rparr>;
          w2 = add t w1;
          w3 = (if int_of (timeout options) \<noteq> 0
                then w2\<lparr>objs := (objs w2)(t := (objs w2 t)\<lparr>wt_timeout := Some (ntimers w2)\<rparr>),
                        timers := (timers w2)(ntimers w2 \<mapsto> (t, timeout options)),
                        ntimers := Suc (ntimers w2)\<rparr>
                else w2);
          w4 = w3\<lparr>boundFunctions :=
                    fold (\<lambda>(name, f) m. m(name \<mapsto> f)) (wt_bindings (objs w3 t)) (boundFunctions w3)\<rparr>
      in (t, rerun t w4))"

subsection \<open>TaskManager: bulk operations\<close>

text \<open>
  \<^verbatim>\<open>terminateAll\<close> calls \<^verbatim>\<open>terminate\<close> on each task of the set without awaiting it, so each call
  runs up to its first \<^verbatim>\<open>await\<close>; a task deletes only itself from the set while the loop
  visits it, so the loop visits every task that was in the set. \<^verbatim>\<open>rerunAll\<close> starts \<^verbatim>\<open>rerun\<close>
  on each task of the set.
\<close>

definition terminateAll :: "jsval \<Rightarrow> world \<Rightarrow> world" where
  "terminateAll error w = (fold (\<lambda>t. terminate t error) (taskManager w) w)\<lparr>taskManager := []\<rparr>"

definition rerunAll :: "world \<Rightarrow> world" where
  "rerunAll w = fold rerun (taskManager w) w"

subsection \<open>Runs\<close>

text \<open>
  Everything that can happen to the controller, one synchronous stretch of code at a time:
  a task is constructed, a timeout fires, an awaited remote call settles, or the owner of
  the tasks calls one of the public operations.
\<close>

datatype event =
    New WaitTaskOptions fn_source "jsval list"
  | TimerFires nat
  | Settles nat outcome
  | Terminate nat jsval
  | Rerun nat
  | TerminateAll jsval
  | RerunAll

fun step :: "event \<Rightarrow> world \<Rightarrow> world" where
  "step (New options fn args) w = snd (WaitTask_new options fn args w)"
| "step (TimerFires tm) w = timer_fires tm w"
| "step (Settles i out) w = settle i out w"
| "step (Terminate t error) w = terminate t error w"
| "step (Rerun t) w = rerun t w"
| "step (TerminateAll error) w = terminateAll error w"
| "step RerunAll w = rerunAll w"

definition run :: "event list \<Rightarrow> world \<Rightarrow> world" where
  "run evs w = fold step evs w"

text \<open>The events that construct a task.\<close>

fun constructs :: "event \<Rightarrow> bool" where
  "constructs (New _ _ _) = True"
| "constructs _ = False"

subsection \<open>Invariants\<close>

text \<open>
  What every synchronous stretch of code keeps of the tasks that exist: no task object
  goes away, a task's DeferredPromise is the one it had, and a settled one stays as it
  settled.
\<close>

definition keeps :: "world \<Rightarrow> world \<Rightarrow> bool" where
  "keeps w w' \<longleftrightarrow>
     nobjs w \<le> nobjs w'
     \<and> (\<forall>t < nobjs w.
          ident (wt_result (objs w' t)) = ident (wt_result (objs w t))
          \<and> (finished (settlement (wt_result (objs w t))) \<longrightarrow>
               settlement (wt_result (objs w' t)) = settlement (wt_result (objs w t))))"

text \<open>
  A pending timeout belongs to an existing task that holds it in \<^verbatim>\<open>#timeout\<close> and whose
  result is not settled: whatever settles a result clears the timeout in the same
  synchronous stretch.
\<close>

definition armed_ok :: "world \<Rightarrow> bool" where
  "armed_ok w \<longleftrightarrow>
     (\<forall>tm t d. timers w tm = Some (t, d) \<longrightarrow>
        t < nobjs w \<and> tm < ntimers w \<and> wt_timeout (objs w t) = Some tm
        \<and> settlement (wt_result (objs w t)) = Pending)"

subsection \<open>Examples\<close>

definition example_options :: WaitTaskOptions where
  "example_options = \<lparr>bindings = None, polling = Raf, root = None, timeout = safe_integer 100\<rparr>"

text \<open>
  One task, constructed with a timeout of 100 ms, whose \<^verbatim>\<open>rerun\<close> has built the poller
  (handle 7), started it, and now awaits its result; timeout 0 is pending.
\<close>

definition polling_world :: world where
  "polling_world =
     run [New example_options (FnString ''document.title'') [],
          Settles 0 (Ok 1), Settles 0 (Ok 7), Settles 0 (Ok 0)] init"

text \<open>That task after two calls of \<^verbatim>\<open>terminate\<close>, the first of which has had its \<^verbatim>\<open>stop\<close> answered.\<close>

definition terminating_world :: world where
  "terminating_world =
     run [Terminate 0 (Err Error ''boom''), Terminate 0 (Err Error ''boom''), Settles 1 (Ok 0)]
       polling_world"

text \<open>Two tasks, just constructed.\<close>

definition two_tasks :: world where
  "two_tasks =
     run [New example_options (FnString ''a'') [],
          New (example_options\<lparr>timeout := safe_integer 0\<rparr>) (FnFunction ''() => b'') []] init"

section \<open>Properties\<close>

lemma startsWith_iff: "startsWith s sub \<longleftrightarrow> (\<exists>post. s = sub @ post)"
  by (induction s sub rule: startsWith.induct) auto

lemma String_includes_iff: "String_includes s sub \<longleftrightarrow> (\<exists>pre post. s = pre @ sub @ post)"
proof (induction s)
  case Nil
  then show ?case by auto
next
  case (Cons x xs)
  show ?case
  proof
    assume "String_includes (x # xs) sub"
    then consider "startsWith (x # xs) sub" | "String_includes xs sub" by auto
    then show "\<exists>pre post. x # xs = pre @ sub @ post"
    proof cases
      case 1
      then obtain post where "x # xs = sub @ post" by (auto simp: startsWith_iff)
      then have "x # xs = [] @ sub @ post" by simp
      then show ?thesis by blast
    next
      case 2
      then obtain pre post where "xs = pre @ sub @ post" using Cons.IH by auto
      then have "x # xs = (x # pre) @ sub @ post" by simp
      then show ?thesis by blast
    qed
  next
    assume "\<exists>pre post. x # xs = pre @ sub @ post"
    then obtain pre post where eq: "x # xs = pre @ sub @ post" by blast
    show "String_includes (x # xs) sub"
    proof (cases pre)
      case Nil
      with eq have "startsWith (x # xs) sub" by (auto simp: startsWith_iff)
      then show ?thesis by simp
    next
      case (Cons p ps)
      with eq have "xs = ps @ sub @ post" by simp
      then have "String_includes xs sub" using Cons.IH by blast
      then show ?thesis by simp
    qed
  qed
qed


declare Number_toString_nat.simps [simp del]

subsection \<open>The text of a safe integer\<close>

text \<open>
  \<open>Number_toString\<close> gives a canonical decimal numeral that reads back as the number, and
  it is the only text that does.
\<close>

lemma below_ten: "d < 10 \<Longrightarrow> d \<in> {0, 1, 2, 3, 4, 5, 6, 7, 8, 9 :: nat}"
  by auto

lemma digit_value_digit: "d < 10 \<Longrightarrow> digit_value (digit d) = Some d"
  using below_ten [of d] by (auto simp: digit_def digit_value_def)

lemma digit_zero: "d < 10 \<Longrightarrow> digit d = CHR ''0'' \<longleftrightarrow> d = 0"
  using below_ten [of d] by (auto simp: digit_def)

lemma read_digits_snoc:
  "read_digits acc (xs @ [c]) =
     (case read_digits acc xs of
        None \<Rightarrow> None
      | Some v \<Rightarrow> (case digit_value c of None \<Rightarrow> None | Some d \<Rightarrow> Some (10 * v + d)))"
  by (induction xs arbitrary: acc) (auto split: option.splits)

lemma read_digits_Number_toString_nat: "read_digits 0 (Number_toString_nat n) = Some n"
proof (induction n rule: Number_toString_nat.induct)
  case (1 n)
  show ?case
  proof (cases "n < 10")
    case True
    then show ?thesis
      by (simp add: Number_toString_nat.simps [of n] digit_value_digit)
  next
    case False
    with "1" have "read_digits 0 (Number_toString_nat (n div 10)) = Some (n div 10)" by simp
    with False show ?thesis
      by (simp add: Number_toString_nat.simps [of n] read_digits_snoc digit_value_digit)
  qed
qed

lemma Number_toString_nat_not_Nil: "Number_toString_nat n \<noteq> []"
  by (simp add: Number_toString_nat.simps [of n])

lemma hd_Number_toString_nat: "hd (Number_toString_nat n) = CHR ''0'' \<longleftrightarrow> n = 0"
proof (induction n rule: Number_toString_nat.induct)
  case (1 n)
  show ?case
  proof (cases "n < 10")
    case True
    then show ?thesis by (simp add: Number_toString_nat.simps [of n] digit_zero)
  next
    case False
    with "1" have "hd (Number_toString_nat (n div 10)) = CHR ''0'' \<longleftrightarrow> n div 10 = 0" by simp
    moreover from False have "n div 10 \<noteq> 0" by simp
    ultimately show ?thesis
      using False by (simp add: Number_toString_nat.simps [of n] Number_toString_nat_not_Nil)
  qed
qed

lemma hd_Number_toString_nat_digit: "digit_value (hd (Number_toString_nat n)) \<noteq> None"
proof -
  obtain c cs where eq: "Number_toString_nat n = c # cs"
    using Number_toString_nat_not_Nil [of n] by (cases "Number_toString_nat n") auto
  with read_digits_Number_toString_nat [of n] show ?thesis
    by (auto split: option.splits)
qed

lemma hd_Number_toString_nat_minus: "hd (Number_toString_nat n) \<noteq> CHR ''-''"
  using hd_Number_toString_nat_digit [of n] by (auto simp: digit_value_def)

lemma read_decimal_Number_toString: "read_decimal (Number_toString n) = Some (int_of n)"
proof (cases "int_of n < 0")
  case True
  then show ?thesis
    by (simp add: read_decimal_def Number_toString_def Number_toString_nat_not_Nil
        read_digits_Number_toString_nat)
next
  case False
  obtain c cs where eq: "Number_toString_nat (nat (int_of n)) = c # cs"
    using Number_toString_nat_not_Nil by (cases "Number_toString_nat (nat (int_of n))") auto
  with hd_Number_toString_nat_minus [of "nat (int_of n)"] have "c \<noteq> CHR ''-''" by simp
  with False eq read_digits_Number_toString_nat [of "nat (int_of n)"] show ?thesis
    by (simp add: read_decimal_def Number_toString_def)
qed

lemma canonical_Number_toString: "canonical (Number_toString n)"
proof (cases "int_of n < 0")
  case True
  then have "nat (- int_of n) \<noteq> 0" by simp
  with True show ?thesis
    by (simp add: canonical_def Number_toString_def Number_toString_nat_not_Nil
        hd_Number_toString_nat)
next
  case False
  obtain c cs where eq: "Number_toString_nat (nat (int_of n)) = c # cs"
    using Number_toString_nat_not_Nil by (cases "Number_toString_nat (nat (int_of n))") auto
  have m: "c \<noteq> CHR ''-''"
    using hd_Number_toString_nat_minus [of "nat (int_of n)"] eq by simp
  have "c = CHR ''0'' \<longrightarrow> cs = []"
  proof
    assume "c = CHR ''0''"
    with eq hd_Number_toString_nat [of "nat (int_of n)"] have "nat (int_of n) = 0" by simp
    with eq show "cs = []" by (simp add: Number_toString_nat.simps [of 0] )
  qed
  with False eq m show ?thesis
    by (simp add: canonical_def Number_toString_def)
qed

lemma int_of_safe_integer: "- (2 ^ 53) < n \<Longrightarrow> n < 2 ^ 53 \<Longrightarrow> int_of (safe_integer n) = n"
  by (simp add: safe_integer_inverse)

lemma digit_value_Some: "digit_value c = Some d \<Longrightarrow> d < 10 \<and> digit d = c"
  by (auto simp: digit_value_def digit_def split: if_splits)

lemma Number_toString_nat_unique:
  "read_digits 0 s = Some v \<Longrightarrow> s \<noteq> [] \<Longrightarrow> (hd s = CHR ''0'' \<longrightarrow> s = ''0'') \<Longrightarrow>
   Number_toString_nat v = s"
proof (induction s arbitrary: v rule: rev_induct)
  case Nil
  then show ?case by simp
next
  case (snoc c xs)
  from snoc.prems(1) obtain u d where u: "read_digits 0 xs = Some u"
    and d: "digit_value c = Some d" and v: "v = 10 * u + d"
    by (auto simp: read_digits_snoc split: option.splits)
  from d have d10: "d < 10" and c: "digit d = c" by (auto dest: digit_value_Some)
  show ?case
  proof (cases "xs = []")
    case True
    with u v d10 c show ?thesis by (simp add: Number_toString_nat.simps [of d])
  next
    case False
    with snoc.prems(3) have nz: "hd xs \<noteq> CHR ''0''" by auto
    with u False have xs: "Number_toString_nat u = xs" by (intro snoc.IH) auto
    with nz hd_Number_toString_nat [of u] have "u \<noteq> 0" by auto
    with v d10 have "\<not> v < 10" "v div 10 = u" "v mod 10 = d" by auto
    with xs c show ?thesis by (simp add: Number_toString_nat.simps [of v])
  qed
qed

lemma Number_toString_unique:
  assumes "canonical s" and "read_decimal s = Some (int_of n)"
  shows "s = Number_toString n"
proof (cases s)
  case Nil
  with assms show ?thesis by (simp add: canonical_def)
next
  case (Cons c cs)
  show ?thesis
  proof (cases "c = CHR ''-''")
    case True
    with Cons assms obtain m where cs: "cs \<noteq> []" "hd cs \<noteq> CHR ''0''"
      and m: "read_digits 0 cs = Some m" and n: "- int m = int_of n"
      by (auto simp: canonical_def read_decimal_def split: if_splits)
    then have p: "Number_toString_nat m = cs" by (intro Number_toString_nat_unique) auto
    with cs hd_Number_toString_nat [of m] have "m \<noteq> 0" by auto
    with n have "int_of n < 0" "nat (- int_of n) = m" by auto
    with p Cons True show ?thesis by (simp add: Number_toString_def)
  next
    case False
    with Cons assms obtain m where m: "read_digits 0 s = Some m" and n: "int m = int_of n"
      and z: "hd s = CHR ''0'' \<longrightarrow> s = ''0''"
      by (auto simp: canonical_def read_decimal_def split: if_splits)
    with Cons have p: "Number_toString_nat m = s" by (intro Number_toString_nat_unique) auto
    from n have "\<not> int_of n < 0" "nat (int_of n) = m" by auto
    with p show ?thesis by (simp add: Number_toString_def)
  qed
qed


subsection \<open>Classification of errors\<close>

text \<open>
  C2. \<^verbatim>\<open>getBadError\<close> on an error \<open>e\<close> (an instance of \<^verbatim>\<open>Error\<close>, of any class, with message
  \<open>m\<close>): when \<open>m\<close> contains the detached-frame text, the result is a new error with the
  message "Waiting failed: Frame detached"; otherwise, when \<open>m\<close> contains the
  context-destroyed text or the context-not-found text, the result is \<^verbatim>\<open>undefined\<close>;
  otherwise the result is \<open>e\<close> itself. In the \<^verbatim>\<open>catch\<close> block of \<^verbatim>\<open>rerun\<close> the first and the
  last are fatal (the task is terminated with that error), the second does nothing.
\<close>

theorem getBadError_classifies:
  "getBadError (Err c m) =
     (if (\<exists>pre post. m = pre @ ''Execution context is not available in detached frame'' @ post)
      then Err Error ''Waiting failed: Frame detached''
      else if (\<exists>pre post. m = pre @ ''Execution context was destroyed'' @ post)
            \<or> (\<exists>pre post. m = pre @ ''Cannot find context with specified id'' @ post)
      then Undefined
      else Err c m)
   \<and> rerun_catch t (Err c m) w =
     (if (\<exists>pre post. m = pre @ ''Execution context is not available in detached frame'' @ post)
      then terminate t (Err Error ''Waiting failed: Frame detached'') w
      else if (\<exists>pre post. m = pre @ ''Execution context was destroyed'' @ post)
            \<or> (\<exists>pre post. m = pre @ ''Cannot find context with specified id'' @ post)
      then w
      else terminate t (Err c m) w)"
  unfolding rerun_catch_def getBadError_def Let_def String_includes_iff [symmetric]
  by simp

subsection \<open>Pollers\<close>

text \<open>
  C10. In each of the three classes, \<^verbatim>\<open>stop()\<close> and \<^verbatim>\<open>result()\<close> on a poller whose \<^verbatim>\<open>#promise\<close>
  is unset (\<^verbatim>\<open>start()\<close> was never called) fail with the error "Polling never started.",
  and change nothing.
\<close>

theorem stop_before_start_fails:
  fixes pm :: MutationPoller and pr :: RAFPoller and pi :: IntervalPoller
  shows "(promise pm = None \<longrightarrow>
            MutationPoller_stop pm = (Inl (Err Error ''Polling never started.''), pm)
          \<and> MutationPoller_result pm = Inl (Err Error ''Polling never started.''))
       \<and> (promise pr = None \<longrightarrow>
            RAFPoller_stop pr = (Inl (Err Error ''Polling never started.''), pr)
          \<and> RAFPoller_result pr = Inl (Err Error ''Polling never started.''))
       \<and> (promise pi = None \<longrightarrow>
            IntervalPoller_stop pi = (Inl (Err Error ''Polling never started.''), pi)
          \<and> IntervalPoller_result pi = Inl (Err Error ''Polling never started.''))"
  by (simp add: MutationPoller_stop_def MutationPoller_result_def RAFPoller_stop_def
      RAFPoller_result_def IntervalPoller_stop_def IntervalPoller_result_def assert_def)

theorem stop_before_start_fails_witness:
  "promise (MutationPoller_new 0) = None
   \<and> MutationPoller_stop (MutationPoller_new 0)
       = (Inl (Err Error ''Polling never started.''), MutationPoller_new 0)
   \<and> MutationPoller_result (MutationPoller_new 0) = Inl (Err Error ''Polling never started.'')
   \<and> promise RAFPoller_new = None
   \<and> RAFPoller_stop RAFPoller_new = (Inl (Err Error ''Polling never started.''), RAFPoller_new)
   \<and> RAFPoller_result RAFPoller_new = Inl (Err Error ''Polling never started.'')
   \<and> promise (IntervalPoller_new 50) = None
   \<and> IntervalPoller_stop (IntervalPoller_new 50)
       = (Inl (Err Error ''Polling never started.''), IntervalPoller_new 50)
   \<and> IntervalPoller_result (IntervalPoller_new 50) = Inl (Err Error ''Polling never started.'')"
  using stop_before_start_fails
    [where pm = "MutationPoller_new 0" and pr = RAFPoller_new and pi = "IntervalPoller_new 50"]
  by (simp add: MutationPoller_new_def RAFPoller_new_def IntervalPoller_new_def)

text \<open>
  C3. In each of the three classes, \<^verbatim>\<open>start()\<close> calls the predicate once, and nothing is
  armed when it does; when that first evaluation returns a truthy value \<open>r\<close>, \<^verbatim>\<open>start()\<close>
  ends normally with the DeferredPromise it created fulfilled with \<open>r\<close>, after one
  evaluation, and with no observer connected, no animation-frame callback requested and
  no interval timer set (the host's registrations and the poller's watch fields are as
  they were).
\<close>

theorem start_truthy_arms_nothing:
  fixes pm :: MutationPoller and pr :: RAFPoller and pi :: IntervalPoller
  shows "truthy r \<Longrightarrow>
       (evaluations (snd (MutationPoller_start_call pm)) = Suc (evaluations pm)
        \<and> observing (snd (MutationPoller_start_call pm)) = observing pm
        \<and> fst (MutationPoller_start (Returns r) pm) = Inr ()
        \<and> promise (snd (MutationPoller_start (Returns r) pm)) = Some (npromises pm)
        \<and> promises (snd (MutationPoller_start (Returns r) pm)) (npromises pm) = Fulfilled r
        \<and> evaluations (snd (MutationPoller_start (Returns r) pm)) = Suc (evaluations pm)
        \<and> observing (snd (MutationPoller_start (Returns r) pm)) = observing pm
        \<and> observer (snd (MutationPoller_start (Returns r) pm)) = observer pm)
     \<and> (evaluations (snd (RAFPoller_start_call pr)) = Suc (evaluations pr)
        \<and> frames (snd (RAFPoller_start_call pr)) = frames pr
        \<and> fst (RAFPoller_start (Returns r) pr) = Inr ()
        \<and> promise (snd (RAFPoller_start (Returns r) pr)) = Some (npromises pr)
        \<and> promises (snd (RAFPoller_start (Returns r) pr)) (npromises pr) = Fulfilled r
        \<and> evaluations (snd (RAFPoller_start (Returns r) pr)) = Suc (evaluations pr)
        \<and> frames (snd (RAFPoller_start (Returns r) pr)) = frames pr)
     \<and> (evaluations (snd (IntervalPoller_start_call pi)) = Suc (evaluations pi)
        \<and> ticking (snd (IntervalPoller_start_call pi)) = ticking pi
        \<and> fst (IntervalPoller_start (Returns r) pi) = Inr ()
        \<and> promise (snd (IntervalPoller_start (Returns r) pi)) = Some (npromises pi)
        \<and> promises (snd (IntervalPoller_start (Returns r) pi)) (npromises pi) = Fulfilled r
        \<and> evaluations (snd (IntervalPoller_start (Returns r) pi)) = Suc (evaluations pi)
        \<and> ticking (snd (IntervalPoller_start (Returns r) pi)) = ticking pi
        \<and> interval (snd (IntervalPoller_start (Returns r) pi)) = interval pi)"
  by (simp add: MutationPoller_start_def MutationPoller_start_call_def
      MutationPoller_start_resume_def RAFPoller_start_def RAFPoller_start_call_def
      RAFPoller_start_resume_def IntervalPoller_start_def IntervalPoller_start_call_def
      IntervalPoller_start_resume_def)

theorem start_truthy_arms_nothing_witness:
  "truthy (Str ''ready'')
   \<and> promises (snd (MutationPoller_start (Returns (Str ''ready'')) (MutationPoller_new 0))) 0
       = Fulfilled (Str ''ready'')
   \<and> observing (snd (MutationPoller_start (Returns (Str ''ready'')) (MutationPoller_new 0)))
       = Map.empty
   \<and> observer (snd (MutationPoller_start (Returns (Str ''ready'')) (MutationPoller_new 0))) = None
   \<and> promises (snd (RAFPoller_start (Returns (Str ''ready'')) RAFPoller_new)) 0
       = Fulfilled (Str ''ready'')
   \<and> frames (snd (RAFPoller_start (Returns (Str ''ready'')) RAFPoller_new)) = []
   \<and> promises (snd (IntervalPoller_start (Returns (Str ''ready'')) (IntervalPoller_new 50))) 0
       = Fulfilled (Str ''ready'')
   \<and> ticking (snd (IntervalPoller_start (Returns (Str ''ready'')) (IntervalPoller_new 50)))
       = Map.empty
   \<and> interval (snd (IntervalPoller_start (Returns (Str ''ready'')) (IntervalPoller_new 50)))
       = None"
  using start_truthy_arms_nothing
    [where r = "Str ''ready''" and pm = "MutationPoller_new 0" and pr = RAFPoller_new
       and pi = "IntervalPoller_new 50"]
  by (simp add: MutationPoller_new_def RAFPoller_new_def IntervalPoller_new_def)

text \<open>
  C5, as the claim states it, fails for the animation-frame variant: its \<^verbatim>\<open>stop()\<close> cancels
  nothing. After a \<^verbatim>\<open>start()\<close> whose first evaluation was falsy and a \<^verbatim>\<open>stop()\<close>, the frame
  callback that \<^verbatim>\<open>start()\<close> requested is still scheduled.
\<close>

theorem RAFPoller_stop_leaves_frame:
  "fst (RAFPoller_stop (snd (RAFPoller_start (Returns (Bool False)) RAFPoller_new))) = Inr ()
   \<and> frames (snd (RAFPoller_start (Returns (Bool False)) RAFPoller_new)) = [0]
   \<and> frames (snd (RAFPoller_stop (snd (RAFPoller_start (Returns (Bool False)) RAFPoller_new))))
       = [0]"
  by (simp add: RAFPoller_stop_def RAFPoller_start_def RAFPoller_start_call_def
      RAFPoller_start_resume_def RAFPoller_new_def assert_def Let_def)

text \<open>
  C5, amended. On a started poller (\<^verbatim>\<open>#promise\<close> is set, to the DeferredPromise \<open>a\<close>), \<^verbatim>\<open>stop()\<close>
  ends normally; it rejects \<open>a\<close> with the error "Polling stopped" exactly when \<open>a\<close> is not
  settled, and changes no other DeferredPromise; a second \<^verbatim>\<open>stop()\<close> changes nothing at all
  and ends normally. The mutation-watch variant then disconnects the observer in
  \<^verbatim>\<open>#observer\<close> and unsets the field; the fixed-interval variant clears the timer in
  \<^verbatim>\<open>#interval\<close> and unsets the field. The animation-frame variant cancels nothing: the
  requested frame callbacks stay scheduled, and the callback of \<open>a\<close>, when the host runs
  it, leaves the list without evaluating the predicate or requesting another frame.
\<close>

theorem stop_rejects_once:
  fixes pm :: MutationPoller and pr :: RAFPoller and pi :: IntervalPoller
  shows "(promise pm = Some a \<longrightarrow>
            fst (MutationPoller_stop pm) = Inr ()
          \<and> promises (snd (MutationPoller_stop pm))
              = (promises pm)(a := (if finished (promises pm a) then promises pm a
                                    else Rejected (Err Error ''Polling stopped'')))
          \<and> observer (snd (MutationPoller_stop pm)) = None
          \<and> observing (snd (MutationPoller_stop pm))
              = (case observer pm of Some ob \<Rightarrow> (observing pm)(ob := None) | None \<Rightarrow> observing pm)
          \<and> MutationPoller_stop (snd (MutationPoller_stop pm))
              = (Inr (), snd (MutationPoller_stop pm)))
       \<and> (promise pi = Some a \<longrightarrow>
            fst (IntervalPoller_stop pi) = Inr ()
          \<and> promises (snd (IntervalPoller_stop pi))
              = (promises pi)(a := (if finished (promises pi a) then promises pi a
                                    else Rejected (Err Error ''Polling stopped'')))
          \<and> interval (snd (IntervalPoller_stop pi)) = None
          \<and> ticking (snd (IntervalPoller_stop pi))
              = (case interval pi of Some tm \<Rightarrow> (ticking pi)(tm := None) | None \<Rightarrow> ticking pi)
          \<and> IntervalPoller_stop (snd (IntervalPoller_stop pi))
              = (Inr (), snd (IntervalPoller_stop pi)))
       \<and> (promise pr = Some a \<longrightarrow>
            fst (RAFPoller_stop pr) = Inr ()
          \<and> promises (snd (RAFPoller_stop pr))
              = (promises pr)(a := (if finished (promises pr a) then promises pr a
                                    else Rejected (Err Error ''Polling stopped'')))
          \<and> frames (snd (RAFPoller_stop pr)) = frames pr
          \<and> RAFPoller_stop (snd (RAFPoller_stop pr)) = (Inr (), snd (RAFPoller_stop pr))
          \<and> (frames pr = a # ks \<longrightarrow>
               RAFPoller_poll_call (snd (RAFPoller_stop pr))
                 = (None, (snd (RAFPoller_stop pr))\<lparr>frames := ks\<rparr>)))"
proof -
  have fin: "finished (reject e d)" for e and d :: "jsval deferred"
    by (cases d) simp_all
  have rej: "\<not> finished d \<Longrightarrow> reject e d = Rejected e" for e and d :: "jsval deferred"
    by (cases d) simp_all
  have m: "promise pm = Some a \<longrightarrow>
            fst (MutationPoller_stop pm) = Inr ()
          \<and> promises (snd (MutationPoller_stop pm))
              = (promises pm)(a := (if finished (promises pm a) then promises pm a
                                    else Rejected (Err Error ''Polling stopped'')))
          \<and> observer (snd (MutationPoller_stop pm)) = None
          \<and> observing (snd (MutationPoller_stop pm))
              = (case observer pm of Some ob \<Rightarrow> (observing pm)(ob := None) | None \<Rightarrow> observing pm)
          \<and> MutationPoller_stop (snd (MutationPoller_stop pm))
              = (Inr (), snd (MutationPoller_stop pm))"
    by (auto simp: MutationPoller_stop_def assert_def Let_def stop_error_def fin rej
        split: option.splits)
  have i: "promise pi = Some a \<longrightarrow>
            fst (IntervalPoller_stop pi) = Inr ()
          \<and> promises (snd (IntervalPoller_stop pi))
              = (promises pi)(a := (if finished (promises pi a) then promises pi a
                                    else Rejected (Err Error ''Polling stopped'')))
          \<and> interval (snd (IntervalPoller_stop pi)) = None
          \<and> ticking (snd (IntervalPoller_stop pi))
              = (case interval pi of Some tm \<Rightarrow> (ticking pi)(tm := None) | None \<Rightarrow> ticking pi)
          \<and> IntervalPoller_stop (snd (IntervalPoller_stop pi))
              = (Inr (), snd (IntervalPoller_stop pi))"
    by (auto simp: IntervalPoller_stop_def assert_def Let_def stop_error_def fin rej
        split: option.splits)
  have r: "promise pr = Some a \<longrightarrow>
            fst (RAFPoller_stop pr) = Inr ()
          \<and> promises (snd (RAFPoller_stop pr))
              = (promises pr)(a := (if finished (promises pr a) then promises pr a
                                    else Rejected (Err Error ''Polling stopped'')))
          \<and> frames (snd (RAFPoller_stop pr)) = frames pr
          \<and> RAFPoller_stop (snd (RAFPoller_stop pr)) = (Inr (), snd (RAFPoller_stop pr))
          \<and> (frames pr = a # ks \<longrightarrow>
               RAFPoller_poll_call (snd (RAFPoller_stop pr))
                 = (None, (snd (RAFPoller_stop pr))\<lparr>frames := ks\<rparr>))"
    by (auto simp: RAFPoller_stop_def RAFPoller_poll_call_def assert_def Let_def stop_error_def
        fin rej split: option.splits)
  from m i r show ?thesis by blast
qed

theorem stop_rejects_once_witness:
  "promise (snd (MutationPoller_start (Returns (Bool False)) (MutationPoller_new 0))) = Some 0
   \<and> observing (snd (MutationPoller_start (Returns (Bool False)) (MutationPoller_new 0))) 0 = Some 0
   \<and> promises (snd (MutationPoller_stop
        (snd (MutationPoller_start (Returns (Bool False)) (MutationPoller_new 0))))) 0
       = Rejected (Err Error ''Polling stopped'')
   \<and> observing (snd (MutationPoller_stop
        (snd (MutationPoller_start (Returns (Bool False)) (MutationPoller_new 0))))) 0 = None
   \<and> promise (snd (IntervalPoller_start (Returns (Bool False)) (IntervalPoller_new 50))) = Some 0
   \<and> ticking (snd (IntervalPoller_start (Returns (Bool False)) (IntervalPoller_new 50))) 0 = Some 0
   \<and> promises (snd (IntervalPoller_stop
        (snd (IntervalPoller_start (Returns (Bool False)) (IntervalPoller_new 50))))) 0
       = Rejected (Err Error ''Polling stopped'')
   \<and> ticking (snd (IntervalPoller_stop
        (snd (IntervalPoller_start (Returns (Bool False)) (IntervalPoller_new 50))))) 0 = None
   \<and> promise (snd (RAFPoller_start (Returns (Bool False)) RAFPoller_new)) = Some 0
   \<and> frames (snd (RAFPoller_start (Returns (Bool False)) RAFPoller_new)) = [0]
   \<and> promises (snd (RAFPoller_stop (snd (RAFPoller_start (Returns (Bool False)) RAFPoller_new)))) 0
       = Rejected (Err Error ''Polling stopped'')
   \<and> fst (RAFPoller_poll_call
        (snd (RAFPoller_stop (snd (RAFPoller_start (Returns (Bool False)) RAFPoller_new))))) = None"
  using stop_rejects_once
    [where pm = "snd (MutationPoller_start (Returns (Bool False)) (MutationPoller_new 0))"
       and pi = "snd (IntervalPoller_start (Returns (Bool False)) (IntervalPoller_new 50))"
       and pr = "snd (RAFPoller_start (Returns (Bool False)) RAFPoller_new)"
       and a = 0 and ks = "[]"]
  by (simp add: MutationPoller_start_def MutationPoller_start_call_def
      MutationPoller_start_resume_def MutationPoller_new_def
      IntervalPoller_start_def IntervalPoller_start_call_def
      IntervalPoller_start_resume_def IntervalPoller_new_def
      RAFPoller_start_def RAFPoller_start_call_def RAFPoller_start_resume_def RAFPoller_new_def)

subsection \<open>Deferred results and the pieces of \<^verbatim>\<open>terminate\<close>\<close>

lemma reject_finished [simp]: "finished d \<Longrightarrow> reject e d = d"
  by (cases d) simp_all

lemma reject_pending [simp]: "\<not> finished d \<Longrightarrow> reject e d = Rejected e"
  by (cases d) simp_all

lemma resolve_finished [simp]: "finished d \<Longrightarrow> resolve v d = d"
  by (cases d) simp_all

lemma finished_reject [simp]: "finished (reject e d)"
  by (cases d) simp_all

lemma finished_resolve [simp]: "finished (resolve v d)"
  by (cases d) simp_all

lemma terminate_taskManager: "taskManager (terminate t e w) = removeAll t (taskManager w)"
  by (simp add: terminate_def Let_def delete_def clearTimeout_def set_result_def suspend_def
      split: option.splits)

lemma terminate_timers:
  "timers (terminate t e w) =
     (case wt_timeout (objs w t) of Some tm \<Rightarrow> (timers w)(tm := None) | None \<Rightarrow> timers w)"
  by (simp add: terminate_def Let_def delete_def clearTimeout_def set_result_def suspend_def
      split: option.splits)

lemma terminate_objs:
  "objs (terminate t e w) =
     (if truthy e \<and> \<not> finished (settlement (wt_result (objs w t)))
      then (objs w)(t := (objs w t)\<lparr>wt_result := (wt_result (objs w t))\<lparr>settlement := Rejected e\<rparr>\<rparr>)
      else objs w)"
  by (auto simp: terminate_def Let_def delete_def clearTimeout_def set_result_def suspend_def
      split: option.splits)

lemma terminate_suspended:
  "suspended (terminate t e w) =
     suspended w @ (case wt_poller (objs w t) of Some h \<Rightarrow> [(t, TStop h)] | None \<Rightarrow> [])"
  by (simp add: terminate_def Let_def delete_def clearTimeout_def set_result_def suspend_def
      split: option.splits)

lemma terminate_counters:
  "nobjs (terminate t e w) = nobjs w" "ndeferreds (terminate t e w) = ndeferreds w"
  "ntimers (terminate t e w) = ntimers w" "boundFunctions (terminate t e w) = boundFunctions w"
  by (simp_all add: terminate_def Let_def delete_def clearTimeout_def set_result_def suspend_def
      split: option.splits)

lemma world_eqI:
  "objs a = objs b \<Longrightarrow> nobjs a = nobjs b \<Longrightarrow> ndeferreds a = ndeferreds b \<Longrightarrow>
   taskManager a = taskManager b \<Longrightarrow> boundFunctions a = boundFunctions b \<Longrightarrow>
   timers a = timers b \<Longrightarrow> ntimers a = ntimers b \<Longrightarrow> suspended a = suspended b \<Longrightarrow>
   a = (b :: world)"
  by simp

lemmas prims = delete_def clearTimeout_def set_result_def set_poller_def suspend_def add_def unsuspend_def

lemma terminate_fields:
  "wt_timeout (objs (terminate t e w) t') = wt_timeout (objs w t')"
  "wt_poller (objs (terminate t e w) t') = wt_poller (objs w t')"
  "ident (wt_result (objs (terminate t e w) t')) = ident (wt_result (objs w t'))"
  by (simp_all add: terminate_objs)

lemma terminate_settlement:
  "settlement (wt_result (objs (terminate t e w) t')) =
     (if t' = t \<and> truthy e then reject e (settlement (wt_result (objs w t')))
      else settlement (wt_result (objs w t')))"
  by (simp add: terminate_objs)

lemma fold_terminate_taskManager:
  "set (taskManager (fold (\<lambda>t. terminate t e) ts w)) = set (taskManager w) - set ts"
  by (induction ts arbitrary: w) (auto simp: terminate_taskManager)

lemma fold_terminate_fields:
  "wt_timeout (objs (fold (\<lambda>t. terminate t e) ts w) t') = wt_timeout (objs w t')"
  "wt_poller (objs (fold (\<lambda>t. terminate t e) ts w) t') = wt_poller (objs w t')"
  "ident (wt_result (objs (fold (\<lambda>t. terminate t e) ts w) t')) = ident (wt_result (objs w t'))"
  by (induction ts arbitrary: w) (simp_all add: terminate_fields)

lemma fold_terminate_settlement:
  "settlement (wt_result (objs (fold (\<lambda>t. terminate t e) ts w) t')) =
     (if t' \<in> set ts \<and> truthy e then reject e (settlement (wt_result (objs w t')))
      else settlement (wt_result (objs w t')))"
  by (induction ts arbitrary: w) (auto simp: terminate_settlement)

lemma fold_terminate_timers:
  "timers (fold (\<lambda>t. terminate t e) ts w) tm =
     (if \<exists>t \<in> set ts. wt_timeout (objs w t) = Some tm then None else timers w tm)"
  by (induction ts arbitrary: w) (auto simp: terminate_timers terminate_fields split: option.splits)

lemma fold_terminate_suspended:
  "set (suspended (fold (\<lambda>t. terminate t e) ts w)) =
     set (suspended w) \<union> {(t, TStop h) | t h. t \<in> set ts \<and> wt_poller (objs w t) = Some h}"
  by (induction ts arbitrary: w) (auto simp: terminate_suspended terminate_fields split: option.splits)

lemma fold_terminate_counters:
  "nobjs (fold (\<lambda>t. terminate t e) ts w) = nobjs w"
  "ndeferreds (fold (\<lambda>t. terminate t e) ts w) = ndeferreds w"
  "ntimers (fold (\<lambda>t. terminate t e) ts w) = ntimers w"
  by (induction ts arbitrary: w) (simp_all add: terminate_counters)

subsection \<open>Every step keeps the results and the timeouts in order\<close>

lemma keeps_refl: "keeps w w"
  by (simp add: keeps_def)

lemma keeps_trans: "keeps a b \<Longrightarrow> keeps b c \<Longrightarrow> keeps a c"
  by (auto simp: keeps_def)

lemma keeps_terminate: "keeps w (terminate t e w)"
  by (simp add: keeps_def terminate_counters terminate_fields terminate_settlement)

lemma keeps_suspend: "keeps w (suspend t c w)"
  by (simp add: keeps_def suspend_def)

lemma keeps_unsuspend: "keeps w (unsuspend i w)"
  by (simp add: keeps_def unsuspend_def)

lemma keeps_set_poller: "keeps w (set_poller t h w)"
  by (simp add: keeps_def set_poller_def)

lemma keeps_resolve: "keeps w (set_result t (resolve v) w)"
  by (simp add: keeps_def set_result_def)

lemma keeps_rerun_catch: "keeps w (rerun_catch t e w)"
  by (simp add: rerun_catch_def Let_def keeps_terminate keeps_refl)

lemma keeps_continue: "keeps w (continue t c out w)"
proof (cases c)
  case RContext
  then show ?thesis by (cases out) (simp_all add: keeps_suspend keeps_rerun_catch)
next
  case RBindings
  then show ?thesis by (cases out) (simp_all add: keeps_suspend keeps_rerun_catch)
next
  case RUtil
  then show ?thesis by (cases out) (simp_all add: keeps_suspend keeps_rerun_catch)
next
  case (RCreate k)
  then show ?thesis
    by (cases out) (auto intro: keeps_trans [OF keeps_set_poller keeps_suspend] simp: keeps_rerun_catch)
next
  case (RStart h)
  then show ?thesis
    by (cases out) (simp_all add: keeps_suspend keeps_rerun_catch split: option.splits)
next
  case (RResult h)
  then show ?thesis
    by (cases out) (auto intro: keeps_trans [OF keeps_resolve keeps_terminate] simp: keeps_rerun_catch)
next
  case (TStop h)
  then show ?thesis
    by (cases out) (simp_all add: keeps_suspend keeps_refl split: option.splits)
next
  case (TDispose h)
  then show ?thesis by (cases out) (simp_all add: keeps_set_poller keeps_refl)
qed

lemma keeps_settle: "keeps w (settle i out w)"
  unfolding settle_def
  by (auto intro: keeps_trans [OF keeps_unsuspend keeps_continue] keeps_refl)

lemma keeps_timer_fires: "keeps w (timer_fires tm w)"
proof (cases "timers w tm")
  case None
  then show ?thesis by (simp add: timer_fires_def keeps_refl)
next
  case (Some p)
  have "keeps w (w\<lparr>timers := (timers w)(tm := None)\<rparr>)" by (simp add: keeps_def)
  then show ?thesis
    using Some by (cases p) (auto simp: timer_fires_def intro: keeps_trans keeps_terminate)
qed

lemma keeps_fold_terminate: "keeps w (fold (\<lambda>t. terminate t e) ts w)"
  by (induction ts arbitrary: w) (auto intro: keeps_refl keeps_trans keeps_terminate)

lemma keeps_terminateAll: "keeps w (terminateAll e w)"
proof -
  have "keeps (fold (\<lambda>t. terminate t e) (taskManager w) w) (terminateAll e w)"
    by (simp add: keeps_def terminateAll_def)
  with keeps_fold_terminate show ?thesis by (rule keeps_trans)
qed

lemma keeps_rerun: "keeps w (rerun t w)"
  by (simp add: rerun_def keeps_suspend)

lemma keeps_fold_rerun: "keeps w (fold rerun ts w)"
  by (induction ts arbitrary: w) (auto intro: keeps_refl keeps_trans keeps_rerun)

lemma keeps_new: "keeps w (snd (WaitTask_new options fn args w))"
  by (simp add: keeps_def WaitTask_new_def Let_def prims rerun_def)

lemma keeps_step: "keeps w (step ev w)"
  by (cases ev)
    (simp_all add: keeps_new keeps_timer_fires keeps_settle keeps_terminate keeps_rerun
      keeps_terminateAll rerunAll_def keeps_fold_rerun)

lemma keeps_run: "keeps w (run evs w)"
  unfolding run_def
  by (induction evs arbitrary: w) (auto intro: keeps_refl keeps_trans keeps_step)


lemma armed_ok_init: "armed_ok init"
  by (simp add: armed_ok_def init_def)

lemma armed_ok_terminate_result:
  assumes "armed_ok w"
  shows "armed_ok (terminate t e (set_result t f w))"
  unfolding armed_ok_def
proof (intro allI impI)
  fix tm t' d
  assume a: "timers (terminate t e (set_result t f w)) tm = Some (t', d)"
  have tmo: "wt_timeout (objs (set_result t f w) t) = wt_timeout (objs w t)"
    by (simp add: set_result_def)
  from a have old: "timers w tm = Some (t', d)" and ne: "wt_timeout (objs w t) \<noteq> Some tm"
    by (auto simp: terminate_timers tmo set_result_def split: option.splits if_splits)
  from assms old have ok: "t' < nobjs w" "tm < ntimers w" "wt_timeout (objs w t') = Some tm"
      "settlement (wt_result (objs w t')) = Pending"
    by (auto simp: armed_ok_def)
  with ne have "t' \<noteq> t" by auto
  with ok show "t' < nobjs (terminate t e (set_result t f w))
        \<and> tm < ntimers (terminate t e (set_result t f w))
        \<and> wt_timeout (objs (terminate t e (set_result t f w)) t') = Some tm
        \<and> settlement (wt_result (objs (terminate t e (set_result t f w)) t')) = Pending"
    by (simp add: terminate_counters terminate_fields terminate_settlement set_result_def)
qed

lemma set_result_id: "set_result t (\<lambda>d. d) w = w"
  by (simp add: set_result_def)

lemma armed_ok_terminate: "armed_ok w \<Longrightarrow> armed_ok (terminate t e w)"
  using armed_ok_terminate_result [of w t e "\<lambda>d. d"] by (simp add: set_result_id)

lemma armed_ok_suspend: "armed_ok w \<Longrightarrow> armed_ok (suspend t c w)"
  by (simp add: armed_ok_def suspend_def)

lemma armed_ok_unsuspend: "armed_ok w \<Longrightarrow> armed_ok (unsuspend i w)"
  by (simp add: armed_ok_def unsuspend_def)

lemma armed_ok_set_poller: "armed_ok w \<Longrightarrow> armed_ok (set_poller t h w)"
  by (simp add: armed_ok_def set_poller_def)

lemma armed_ok_rerun_catch: "armed_ok w \<Longrightarrow> armed_ok (rerun_catch t e w)"
  by (simp add: rerun_catch_def Let_def armed_ok_terminate)

lemma armed_ok_continue: "armed_ok w \<Longrightarrow> armed_ok (continue t c out w)"
proof (cases c)
  case RContext
  assume "armed_ok w"
  with RContext show ?thesis by (cases out) (simp_all add: armed_ok_suspend armed_ok_rerun_catch)
next
  case RBindings
  assume "armed_ok w"
  with RBindings show ?thesis by (cases out) (simp_all add: armed_ok_suspend armed_ok_rerun_catch)
next
  case RUtil
  assume "armed_ok w"
  with RUtil show ?thesis by (cases out) (simp_all add: armed_ok_suspend armed_ok_rerun_catch)
next
  case (RCreate k)
  assume "armed_ok w"
  with RCreate show ?thesis
    by (cases out) (simp_all add: armed_ok_suspend armed_ok_set_poller armed_ok_rerun_catch)
next
  case (RStart h)
  assume "armed_ok w"
  with RStart show ?thesis
    by (cases out) (simp_all add: armed_ok_suspend armed_ok_rerun_catch split: option.splits)
next
  case (RResult h)
  assume "armed_ok w"
  with RResult show ?thesis
    by (cases out) (simp_all add: armed_ok_terminate_result armed_ok_rerun_catch)
next
  case (TStop h)
  assume "armed_ok w"
  with TStop show ?thesis by (cases out) (simp_all add: armed_ok_suspend split: option.splits)
next
  case (TDispose h)
  assume "armed_ok w"
  with TDispose show ?thesis by (cases out) (simp_all add: armed_ok_set_poller)
qed

lemma armed_ok_settle: "armed_ok w \<Longrightarrow> armed_ok (settle i out w)"
  by (simp add: settle_def armed_ok_continue armed_ok_unsuspend)

lemma armed_ok_timer_fires:
  assumes "armed_ok w"
  shows "armed_ok (timer_fires tm w)"
proof (cases "timers w tm")
  case None
  with assms show ?thesis by (simp add: timer_fires_def)
next
  case (Some p)
  from assms have "armed_ok (w\<lparr>timers := (timers w)(tm := None)\<rparr>)"
    by (simp add: armed_ok_def)
  then show ?thesis
    using Some by (cases p) (simp add: timer_fires_def armed_ok_terminate)
qed

lemma armed_ok_fold_terminate: "armed_ok w \<Longrightarrow> armed_ok (fold (\<lambda>t. terminate t e) ts w)"
  by (induction ts arbitrary: w) (simp_all add: armed_ok_terminate)

lemma armed_ok_terminateAll: "armed_ok w \<Longrightarrow> armed_ok (terminateAll e w)"
  using armed_ok_fold_terminate [of w e "taskManager w"]
  by (simp add: terminateAll_def armed_ok_def)

lemma armed_ok_rerun: "armed_ok w \<Longrightarrow> armed_ok (rerun t w)"
  by (simp add: rerun_def armed_ok_suspend)

lemma armed_ok_fold_rerun: "armed_ok w \<Longrightarrow> armed_ok (fold rerun ts w)"
  by (induction ts arbitrary: w) (simp_all add: armed_ok_rerun)

lemma new_fields:
  "nobjs (snd (WaitTask_new options fn args w)) = Suc (nobjs w)"
  "ntimers (snd (WaitTask_new options fn args w))
     = (if int_of (timeout options) \<noteq> 0 then Suc (ntimers w) else ntimers w)"
  "timers (snd (WaitTask_new options fn args w))
     = (if int_of (timeout options) \<noteq> 0 then (timers w)(ntimers w \<mapsto> (nobjs w, timeout options))
        else timers w)"
  "t \<noteq> nobjs w \<Longrightarrow> objs (snd (WaitTask_new options fn args w)) t = objs w t"
  "wt_timeout (objs (snd (WaitTask_new options fn args w)) (nobjs w))
     = (if int_of (timeout options) \<noteq> 0 then Some (ntimers w) else None)"
  "wt_result (objs (snd (WaitTask_new options fn args w)) (nobjs w))
     = createDeferredPromise (ndeferreds w)"
  by (simp_all add: WaitTask_new_def Let_def prims rerun_def)

lemma armed_ok_new:
  assumes "armed_ok w"
  shows "armed_ok (snd (WaitTask_new options fn args w))"
  unfolding armed_ok_def
proof (intro allI impI)
  fix tm t d
  let ?w' = "snd (WaitTask_new options fn args w)"
  assume a: "timers ?w' tm = Some (t, d)"
  show "t < nobjs ?w' \<and> tm < ntimers ?w' \<and> wt_timeout (objs ?w' t) = Some tm
        \<and> settlement (wt_result (objs ?w' t)) = Pending"
  proof (cases "int_of (timeout options) \<noteq> 0 \<and> tm = ntimers w")
    case True
    with a have "t = nobjs w" by (simp add: new_fields)
    with True show ?thesis by (simp add: new_fields createDeferredPromise_def)
  next
    case False
    with a have old: "timers w tm = Some (t, d)"
      by (auto simp: new_fields split: if_splits)
    with assms have ok: "t < nobjs w" "tm < ntimers w" "wt_timeout (objs w t) = Some tm"
        "settlement (wt_result (objs w t)) = Pending"
      by (auto simp: armed_ok_def)
    then have "t \<noteq> nobjs w" by simp
    with ok show ?thesis by (simp add: new_fields)
  qed
qed

lemma armed_ok_step: "armed_ok w \<Longrightarrow> armed_ok (step ev w)"
  by (cases ev)
    (simp_all add: armed_ok_new armed_ok_timer_fires armed_ok_settle armed_ok_terminate
      armed_ok_rerun armed_ok_terminateAll rerunAll_def armed_ok_fold_rerun)

lemma armed_ok_run: "armed_ok w \<Longrightarrow> armed_ok (run evs w)"
  unfolding run_def
  by (induction evs arbitrary: w) (simp_all add: armed_ok_step)

lemma ndeferreds_continue: "ndeferreds (continue t c out w) = ndeferreds w"
  by (cases c; cases out)
    (simp_all add: prims rerun_catch_def Let_def terminate_counters split: option.splits)

lemma ndeferreds_fold_rerun: "ndeferreds (fold rerun ts w) = ndeferreds w"
  by (induction ts arbitrary: w) (simp_all add: rerun_def suspend_def)

lemma ndeferreds_step:
  "ndeferreds (step ev w) = ndeferreds w + (if constructs ev then 1 else 0)"
  by (cases ev)
    (auto simp: WaitTask_new_def Let_def prims rerun_def timer_fires_def terminate_counters
      settle_def ndeferreds_continue terminateAll_def fold_terminate_counters rerunAll_def
      ndeferreds_fold_rerun split: option.splits)

lemma ndeferreds_run:
  "ndeferreds (run evs w) = ndeferreds w + length (filter constructs evs)"
  unfolding run_def
  by (induction evs arbitrary: w) (simp_all add: ndeferreds_step)

lemma run_append: "run (xs @ ys) w = run ys (run xs w)"
  by (simp add: run_def)

lemma run_Cons: "run (ev # evs) w = run evs (step ev w)"
  by (simp add: run_def)


lemmas world_simps =
  run_def init_def WaitTask_new_def Let_def prims rerun_def createDeferredPromise_def settle_def
  timer_fires_def terminate_def timeout_error_def Number_toString_def int_of_safe_integer
  Number_toString_nat.simps digit_def rerun_catch_def getBadError_def undefined_poller_def
  terminateAll_def rerunAll_def

subsection \<open>WaitTask and TaskManager\<close>

text \<open>
  C1. The DeferredPromise of a task is created by the task's construction and by nothing
  else (every constructed task adds one to the number created, no other event adds any);
  over any run of events (construction of other tasks, timeouts firing, remote calls of any
  \<^verbatim>\<open>rerun\<close> or \<^verbatim>\<open>terminate\<close> settling either way, calls of \<^verbatim>\<open>rerun\<close>, \<^verbatim>\<open>terminate\<close>, \<^verbatim>\<open>rerunAll\<close>,
  \<^verbatim>\<open>terminateAll\<close>) an existing task keeps the DeferredPromise it has, and once that is
  settled its settlement never changes.
\<close>

theorem result_created_once_settles_once:
  "t < nobjs w \<Longrightarrow>
     ident (wt_result (objs (run evs w) t)) = ident (wt_result (objs w t))
   \<and> (finished (settlement (wt_result (objs w t))) \<longrightarrow>
        settlement (wt_result (objs (run evs w) t)) = settlement (wt_result (objs w t)))
   \<and> ndeferreds (run evs w) = ndeferreds w + length (filter constructs evs)
   \<and> wt_result (objs (snd (WaitTask_new options fn args w)) (fst (WaitTask_new options fn args w)))
       = createDeferredPromise (ndeferreds w)
   \<and> ndeferreds (snd (WaitTask_new options fn args w)) = Suc (ndeferreds w)"
proof -
  assume t: "t < nobjs w"
  have "keeps w (run evs w)" by (rule keeps_run)
  with t have same: "ident (wt_result (objs (run evs w) t)) = ident (wt_result (objs w t))"
    and once: "finished (settlement (wt_result (objs w t))) \<longrightarrow>
        settlement (wt_result (objs (run evs w) t)) = settlement (wt_result (objs w t))"
    by (simp_all add: keeps_def)
  have made: "wt_result (objs (snd (WaitTask_new options fn args w))
        (fst (WaitTask_new options fn args w))) = createDeferredPromise (ndeferreds w)"
    by (simp add: WaitTask_new_def Let_def prims rerun_def)
  have count: "ndeferreds (snd (WaitTask_new options fn args w)) = Suc (ndeferreds w)"
    by (simp add: WaitTask_new_def Let_def prims rerun_def)
  from same once made count show ?thesis
    by (simp only: ndeferreds_run simp_thms)
qed

theorem result_created_once_settles_once_witness:
  "0 < nobjs (step (TimerFires 0) polling_world)
   \<and> finished (settlement (wt_result (objs (step (TimerFires 0) polling_world) 0)))
   \<and> ident (wt_result (objs
        (run [Settles 0 (Ok 9), Rerun 0, New example_options (FnString ''x'') [], RerunAll,
              Settles 1 (Fail (Err Error ''Execution context was destroyed'')), TerminateAll Undefined]
           (step (TimerFires 0) polling_world)) 0)) = 0
   \<and> settlement (wt_result (objs
        (run [Settles 0 (Ok 9), Rerun 0, New example_options (FnString ''x'') [], RerunAll,
              Settles 1 (Fail (Err Error ''Execution context was destroyed'')), TerminateAll Undefined]
           (step (TimerFires 0) polling_world)) 0))
       = Rejected (Err TimeoutError ''Waiting failed: 100ms exceeded'')
   \<and> ndeferreds
        (run [Settles 0 (Ok 9), Rerun 0, New example_options (FnString ''x'') [], RerunAll,
              Settles 1 (Fail (Err Error ''Execution context was destroyed'')), TerminateAll Undefined]
           (step (TimerFires 0) polling_world)) = 2"
  using result_created_once_settles_once
    [where t = 0 and w = "step (TimerFires 0) polling_world"
       and options = example_options and fn = "FnString ''x''" and args = "[]"
       and evs = "[Settles 0 (Ok 9), Rerun 0, New example_options (FnString ''x'') [], RerunAll,
              Settles 1 (Fail (Err Error ''Execution context was destroyed'')), TerminateAll Undefined]"]
  by (simp add: world_simps example_options_def polling_world_def)

text \<open>
  C4. In any state the controller can reach, when a pending timeout fires, the result of
  its task is rejected with the TimeoutError "Waiting failed: <timeout>ms exceeded" and the
  task leaves the TaskManager; whatever happens afterwards (a successful poller result
  arriving among it), the result stays rejected with that error.
\<close>

theorem timeout_wins:
  assumes "timers (run evs init) tm = Some (t, d)"
  shows "settlement (wt_result (objs (step (TimerFires tm) (run evs init)) t))
           = Rejected (Err TimeoutError (''Waiting failed: '' @ Number_toString d @ ''ms exceeded''))
       \<and> t \<notin> set (taskManager (step (TimerFires tm) (run evs init)))
       \<and> settlement (wt_result (objs (run later (step (TimerFires tm) (run evs init))) t))
           = Rejected (Err TimeoutError (''Waiting failed: '' @ Number_toString d @ ''ms exceeded''))"
proof -
  let ?w = "run evs init"
  let ?w' = "step (TimerFires tm) ?w"
  have "armed_ok ?w" by (simp add: armed_ok_run armed_ok_init)
  with assms have t: "t < nobjs ?w" and p: "settlement (wt_result (objs ?w t)) = Pending"
    by (auto simp: armed_ok_def)
  from assms p have fired: "settlement (wt_result (objs ?w' t)) = Rejected (timeout_error d)"
    by (simp add: timer_fires_def terminate_settlement timeout_error_def)
  from assms have gone: "t \<notin> set (taskManager ?w')"
    by (simp add: timer_fires_def terminate_taskManager)
  have "keeps ?w ?w'" by (rule keeps_step)
  with t have t': "t < nobjs ?w'" by (simp add: keeps_def)
  have "keeps ?w' (run later ?w')" by (rule keeps_run)
  with t' fired have "settlement (wt_result (objs (run later ?w') t)) = Rejected (timeout_error d)"
    by (simp add: keeps_def)
  with fired gone show ?thesis by (simp add: timeout_error_def)
qed

theorem timeout_wins_witness:
  "timers polling_world 0 = Some (0, safe_integer 100)
   \<and> suspended (step (TimerFires 0) polling_world) ! 0 = (0, RResult 7)
   \<and> settlement (wt_result (objs
        (run [Settles 0 (Ok 9)] (step (TimerFires 0) polling_world)) 0))
       = Rejected (Err TimeoutError ''Waiting failed: 100ms exceeded'')"
  using timeout_wins
    [where evs = "[New example_options (FnString ''document.title'') [],
                   Settles 0 (Ok 1), Settles 0 (Ok 7), Settles 0 (Ok 0)]"
       and tm = 0 and t = 0 and d = "safe_integer 100" and later = "[Settles 0 (Ok 9)]"]
  by (simp add: world_simps example_options_def polling_world_def)

text \<open>
  C6. When a remote call awaited inside \<^verbatim>\<open>rerun\<close> fails with an error that \<^verbatim>\<open>getBadError\<close>
  does not return as truthy (a recoverable one), that call of \<^verbatim>\<open>rerun\<close> ends and nothing
  else changes: the TaskManager's set, every task object (result, poller handle, timeout
  field) and the pending timeouts are as they were.
\<close>

theorem recoverable_failure_changes_nothing:
  "i < length (suspended w) \<Longrightarrow> in_rerun (snd (suspended w ! i)) \<Longrightarrow> \<not> truthy (getBadError e) \<Longrightarrow>
   settle i (Fail e) w = unsuspend i w
   \<and> taskManager (settle i (Fail e) w) = taskManager w
   \<and> objs (settle i (Fail e) w) = objs w
   \<and> timers (settle i (Fail e) w) = timers w"
proof -
  assume i: "i < length (suspended w)"
    and c: "in_rerun (snd (suspended w ! i))"
    and e: "\<not> truthy (getBadError e)"
  from e have skip: "rerun_catch t e w' = w'" for t w'
    by (simp add: rerun_catch_def Let_def)
  from c have "continue t (snd (suspended w ! i)) (Fail e) w' = rerun_catch t e w'" for t w'
    by (cases "snd (suspended w ! i)") simp_all
  with skip i have "settle i (Fail e) w = unsuspend i w"
    by (simp add: settle_def)
  then show ?thesis by (simp add: unsuspend_def)
qed

theorem recoverable_failure_changes_nothing_witness:
  "0 < length (suspended polling_world)
   \<and> in_rerun (snd (suspended polling_world ! 0))
   \<and> \<not> truthy (getBadError
          (Err Error ''Protocol error (Runtime.callFunctionOn): Execution context was destroyed.''))
   \<and> taskManager (settle 0 (Fail
          (Err Error ''Protocol error (Runtime.callFunctionOn): Execution context was destroyed.''))
          polling_world) = [0]
   \<and> objs (settle 0 (Fail
          (Err Error ''Protocol error (Runtime.callFunctionOn): Execution context was destroyed.''))
          polling_world) 0
       = \<lparr>wt_bindings = [], wt_polling = Raf, wt_root = None,
          wt_fn = ''() => {return (document.title);}'', wt_args = [], wt_timeout = Some 0,
          wt_result = \<lparr>ident = 0, settlement = Pending\<rparr>, wt_poller = Some 7\<rparr>
   \<and> timers (settle 0 (Fail
          (Err Error ''Protocol error (Runtime.callFunctionOn): Execution context was destroyed.''))
          polling_world) 0 = Some (0, safe_integer 100)"
  using recoverable_failure_changes_nothing
    [where i = 0 and w = polling_world
       and e = "Err Error ''Protocol error (Runtime.callFunctionOn): Execution context was destroyed.''"]
  by (simp add: world_simps example_options_def polling_world_def)

text \<open>
  C7. \<^verbatim>\<open>terminate(error)\<close> removes the task from the TaskManager, clears the timeout held in
  \<^verbatim>\<open>#timeout\<close>, rejects the task's result with the error exactly when the error is truthy
  and the result is not settled, touches no other task, and, when \<^verbatim>\<open>#poller\<close> is set, calls
  \<^verbatim>\<open>stop\<close> on it remotely. Calling it again with the same error changes nothing of the
  TaskManager, the timeouts or the tasks: it only calls \<^verbatim>\<open>stop\<close> once more while \<^verbatim>\<open>#poller\<close> is
  still set. When \<^verbatim>\<open>stop\<close> returns, the poller in \<^verbatim>\<open>#poller\<close> (if still set) is disposed, and
  when that returns \<^verbatim>\<open>#poller\<close> is unset; when either call fails, the failure is swallowed:
  the call of \<^verbatim>\<open>terminate\<close> ends and nothing else changes.
\<close>

theorem terminate_idempotent_best_effort:
  "taskManager (terminate t e w) = removeAll t (taskManager w)
   \<and> timers (terminate t e w)
       = (case wt_timeout (objs w t) of Some tm \<Rightarrow> (timers w)(tm := None) | None \<Rightarrow> timers w)
   \<and> settlement (wt_result (objs (terminate t e w) t))
       = (if truthy e \<and> \<not> finished (settlement (wt_result (objs w t))) then Rejected e
          else settlement (wt_result (objs w t)))
   \<and> (\<forall>t'. t' \<noteq> t \<longrightarrow> objs (terminate t e w) t' = objs w t')
   \<and> suspended (terminate t e w)
       = suspended w @ (case wt_poller (objs w t) of Some h \<Rightarrow> [(t, TStop h)] | None \<Rightarrow> [])
   \<and> terminate t e (terminate t e w)
       = (case wt_poller (objs w t) of
            Some h \<Rightarrow> suspend t (TStop h) (terminate t e w)
          | None \<Rightarrow> terminate t e w)
   \<and> (i < length (suspended w) \<and> suspended w ! i = (t, TStop h) \<longrightarrow>
        settle i (Ok v) w
          = (case wt_poller (objs w t) of
               Some h' \<Rightarrow> suspend t (TDispose h') (unsuspend i w)
             | None \<Rightarrow> unsuspend i w)
      \<and> settle i (Fail x) w = unsuspend i w)
   \<and> (j < length (suspended w) \<and> suspended w ! j = (t, TDispose h) \<longrightarrow>
        settle j (Ok v) w = set_poller t None (unsuspend j w)
      \<and> settle j (Fail x) w = unsuspend j w)"
proof -
  have twice: "terminate t e (terminate t e w)
       = (case wt_poller (objs w t) of
            Some h \<Rightarrow> suspend t (TStop h) (terminate t e w)
          | None \<Rightarrow> terminate t e w)"
    by (rule world_eqI)
      (auto simp: terminate_taskManager terminate_timers terminate_objs terminate_suspended
        terminate_counters suspend_def split: option.splits)
  have stop: "i < length (suspended w) \<and> suspended w ! i = (t, TStop h) \<longrightarrow>
        settle i (Ok v) w
          = (case wt_poller (objs w t) of
               Some h' \<Rightarrow> suspend t (TDispose h') (unsuspend i w)
             | None \<Rightarrow> unsuspend i w)
      \<and> settle i (Fail x) w = unsuspend i w"
    by (simp add: settle_def unsuspend_def split: option.splits)
  have dispose: "j < length (suspended w) \<and> suspended w ! j = (t, TDispose h) \<longrightarrow>
        settle j (Ok v) w = set_poller t None (unsuspend j w)
      \<and> settle j (Fail x) w = unsuspend j w"
    by (simp add: settle_def)
  have others: "\<forall>t'. t' \<noteq> t \<longrightarrow> objs (terminate t e w) t' = objs w t'"
    by (simp add: terminate_objs)
  have own: "settlement (wt_result (objs (terminate t e w) t))
       = (if truthy e \<and> \<not> finished (settlement (wt_result (objs w t))) then Rejected e
          else settlement (wt_result (objs w t)))"
    by (simp add: terminate_objs)
  from twice stop dispose others own show ?thesis
    by (simp only: terminate_taskManager terminate_timers terminate_suspended simp_thms)
qed

theorem terminate_idempotent_best_effort_witness:
  "1 < length (suspended terminating_world) \<and> suspended terminating_world ! 1 = (0, TStop 7)
   \<and> 2 < length (suspended terminating_world) \<and> suspended terminating_world ! 2 = (0, TDispose 7)
   \<and> taskManager (terminate 0 (Err Error ''again'') terminating_world) = []
   \<and> settlement (wt_result (objs (terminate 0 (Err Error ''again'') terminating_world) 0))
       = Rejected (Err Error ''boom'')
   \<and> suspended (settle 1 (Ok 0) terminating_world)
       = [(0, RResult 7), (0, TDispose 7), (0, TDispose 7)]
   \<and> objs (settle 1 (Fail (Err Error ''Target closed'')) terminating_world) 0
       = objs terminating_world 0
   \<and> wt_poller (objs (settle 2 (Ok 0) terminating_world) 0) = None
   \<and> wt_poller (objs (settle 2 (Fail (Err Error ''Target closed'')) terminating_world) 0) = Some 7"
  using terminate_idempotent_best_effort
    [where t = 0 and e = "Err Error ''again''" and w = terminating_world and i = 1 and j = 2
       and h = 7 and v = 0 and x = "Err Error ''Target closed''"]
  by (simp add: world_simps example_options_def polling_world_def terminating_world_def)

text \<open>
  C8. The constructor, with an \<^verbatim>\<open>options.timeout\<close> that is a safe integer other than 0, sets
  one timeout whose callback holds the new task and the configured duration, and keeps it
  in \<^verbatim>\<open>#timeout\<close>; when that timeout fires, the task's result is rejected with the
  TimeoutError "Waiting failed: <timeout>ms exceeded", where <timeout> is the canonical
  decimal numeral that reads back as the configured duration, the task leaves the
  TaskManager, and the timeout is no longer pending (it fires once). With \<^verbatim>\<open>options.timeout\<close>
  equal to 0 no timeout is set and \<^verbatim>\<open>#timeout\<close> stays unset.
\<close>

theorem constructor_arms_timeout:
  "fst (WaitTask_new options fn args w) = nobjs w
   \<and> (int_of (timeout options) \<noteq> 0 \<longrightarrow>
        timers (snd (WaitTask_new options fn args w))
          = (timers w)(ntimers w \<mapsto> (nobjs w, timeout options))
      \<and> wt_timeout (objs (snd (WaitTask_new options fn args w)) (nobjs w)) = Some (ntimers w)
      \<and> settlement (wt_result (objs
           (timer_fires (ntimers w) (snd (WaitTask_new options fn args w))) (nobjs w)))
          = Rejected (Err TimeoutError
              (''Waiting failed: '' @ Number_toString (timeout options) @ ''ms exceeded''))
      \<and> canonical (Number_toString (timeout options))
      \<and> read_decimal (Number_toString (timeout options)) = Some (int_of (timeout options))
      \<and> (\<forall>s. canonical s \<and> read_decimal s = Some (int_of (timeout options)) \<longrightarrow>
             s = Number_toString (timeout options))
      \<and> nobjs w \<notin> set (taskManager (timer_fires (ntimers w) (snd (WaitTask_new options fn args w))))
      \<and> timers (timer_fires (ntimers w) (snd (WaitTask_new options fn args w))) (ntimers w) = None)
   \<and> (int_of (timeout options) = 0 \<longrightarrow>
        timers (snd (WaitTask_new options fn args w)) = timers w
      \<and> ntimers (snd (WaitTask_new options fn args w)) = ntimers w
      \<and> wt_timeout (objs (snd (WaitTask_new options fn args w)) (nobjs w)) = None)"
proof -
  let ?w' = "snd (WaitTask_new options fn args w)"
  have id: "fst (WaitTask_new options fn args w) = nobjs w"
    by (simp add: WaitTask_new_def Let_def)
  have numeral: "canonical (Number_toString (timeout options))"
      "read_decimal (Number_toString (timeout options)) = Some (int_of (timeout options))"
      "\<forall>s. canonical s \<and> read_decimal s = Some (int_of (timeout options)) \<longrightarrow>
             s = Number_toString (timeout options)"
    by (simp_all add: canonical_Number_toString read_decimal_Number_toString
        Number_toString_unique)
  have unset: "int_of (timeout options) = 0 \<longrightarrow>
        timers ?w' = timers w \<and> ntimers ?w' = ntimers w
      \<and> wt_timeout (objs ?w' (nobjs w)) = None"
    by (simp add: new_fields)
  have armed: "int_of (timeout options) \<noteq> 0 \<longrightarrow>
        timers ?w' = (timers w)(ntimers w \<mapsto> (nobjs w, timeout options))
      \<and> wt_timeout (objs ?w' (nobjs w)) = Some (ntimers w)"
    by (simp add: new_fields)
  have fires: "int_of (timeout options) \<noteq> 0 \<longrightarrow>
        settlement (wt_result (objs (timer_fires (ntimers w) ?w') (nobjs w)))
          = Rejected (Err TimeoutError
              (''Waiting failed: '' @ Number_toString (timeout options) @ ''ms exceeded''))
      \<and> nobjs w \<notin> set (taskManager (timer_fires (ntimers w) ?w'))
      \<and> timers (timer_fires (ntimers w) ?w') (ntimers w) = None"
    by (simp add: new_fields timer_fires_def terminate_taskManager terminate_timers
        terminate_settlement createDeferredPromise_def timeout_error_def)
  from id numeral unset armed fires show ?thesis by blast
qed

theorem constructor_arms_timeout_witness:
  "int_of (timeout example_options) \<noteq> 0
   \<and> timers (snd (WaitTask_new example_options (FnString ''document.title'') [] init)) 0
       = Some (0, safe_integer 100)
   \<and> settlement (wt_result (objs
        (timer_fires 0 (snd (WaitTask_new example_options (FnString ''document.title'') [] init)))
        0))
       = Rejected (Err TimeoutError ''Waiting failed: 100ms exceeded'')
   \<and> int_of (timeout (example_options\<lparr>timeout := safe_integer 30000\<rparr>)) \<noteq> 0
   \<and> settlement (wt_result (objs
        (timer_fires 0 (snd (WaitTask_new (example_options\<lparr>timeout := safe_integer 30000\<rparr>)
           (FnString ''document.title'') [] init))) 0))
       = Rejected (Err TimeoutError ''Waiting failed: 30000ms exceeded'')
   \<and> canonical ''30000'' \<and> read_decimal ''30000'' = Some 30000
   \<and> int_of (timeout (example_options\<lparr>timeout := safe_integer 0\<rparr>)) = 0
   \<and> timers (snd (WaitTask_new (example_options\<lparr>timeout := safe_integer 0\<rparr>)
        (FnString ''document.title'') [] init)) 0 = None
   \<and> wt_timeout (objs (snd (WaitTask_new (example_options\<lparr>timeout := safe_integer 0\<rparr>)
        (FnString ''document.title'') [] init)) 0) = None"
  using constructor_arms_timeout
    [where options = example_options and fn = "FnString ''document.title''" and args = "[]"
       and w = init]
    constructor_arms_timeout
    [where options = "example_options\<lparr>timeout := safe_integer 30000\<rparr>"
       and fn = "FnString ''document.title''" and args = "[]" and w = init]
    constructor_arms_timeout
    [where options = "example_options\<lparr>timeout := safe_integer 0\<rparr>"
       and fn = "FnString ''document.title''" and args = "[]" and w = init]
  by (simp add: world_simps example_options_def)

text \<open>
  C9. After \<^verbatim>\<open>terminateAll(error)\<close> the TaskManager's set is empty; and, with an error given
  (truthy), every task that was in the set has its result rejected with that error if it
  was not settled (and unchanged if it was), its timeout cleared, and \<^verbatim>\<open>stop\<close> called on its
  poller if it has one.
\<close>

theorem terminateAll_rejects_all:
  "taskManager (terminateAll e w) = []
   \<and> (truthy e \<longrightarrow>
        (\<forall>t \<in> set (taskManager w).
           settlement (wt_result (objs (terminateAll e w) t))
             = (if finished (settlement (wt_result (objs w t)))
                then settlement (wt_result (objs w t)) else Rejected e)
         \<and> (\<forall>tm. wt_timeout (objs w t) = Some tm \<longrightarrow> timers (terminateAll e w) tm = None)
         \<and> (\<forall>h. wt_poller (objs w t) = Some h \<longrightarrow>
               (t, TStop h) \<in> set (suspended (terminateAll e w)))))"
proof (intro conjI impI ballI allI)
  show "taskManager (terminateAll e w) = []"
    by (simp add: terminateAll_def)
next
  fix t
  assume "truthy e" and "t \<in> set (taskManager w)"
  then show "settlement (wt_result (objs (terminateAll e w) t))
      = (if finished (settlement (wt_result (objs w t)))
         then settlement (wt_result (objs w t)) else Rejected e)"
    by (simp add: terminateAll_def fold_terminate_settlement)
next
  fix t tm
  assume "t \<in> set (taskManager w)" and "wt_timeout (objs w t) = Some tm"
  then show "timers (terminateAll e w) tm = None"
    by (auto simp: terminateAll_def fold_terminate_timers)
next
  fix t h
  assume "t \<in> set (taskManager w)" and "wt_poller (objs w t) = Some h"
  then show "(t, TStop h) \<in> set (suspended (terminateAll e w))"
    by (simp add: terminateAll_def fold_terminate_suspended)
qed

theorem terminateAll_rejects_all_witness:
  "truthy (Err Error ''Navigating frame was detached'')
   \<and> taskManager two_tasks = [0, 1]
   \<and> taskManager (terminateAll (Err Error ''Navigating frame was detached'') two_tasks) = []
   \<and> settlement (wt_result (objs
        (terminateAll (Err Error ''Navigating frame was detached'') two_tasks) 0))
       = Rejected (Err Error ''Navigating frame was detached'')
   \<and> settlement (wt_result (objs
        (terminateAll (Err Error ''Navigating frame was detached'') two_tasks) 1))
       = Rejected (Err Error ''Navigating frame was detached'')
   \<and> timers (terminateAll (Err Error ''Navigating frame was detached'') two_tasks) 0 = None"
  using terminateAll_rejects_all
    [where e = "Err Error ''Navigating frame was detached''" and w = two_tasks]
  by (simp add: world_simps example_options_def two_tasks_def)

end
